theory Spec2Isabelle
  imports Complex_Main
begin

section \<open>Patina parameter space\<close>

text \<open>
  The program is \<^verbatim>\<open>patina_weathering_mcp.py\<close>. A coordinate ("state") is a Python
  \<^verbatim>\<open>Dict[str, float]\<close>; it is modelled as a map from axis names to reals. Python floats
  are read as real numbers: the rounding of double arithmetic is not modelled. The
  program's numbers therefore agree with the model's up to rounding only, and a
  comparison or a rounding to four decimals can fall on the other side of a tie. The
  theorems are stated with that in mind: they give an exact number only where the
  doubles are exact too, a bound where they are not, and leave open the numbers and the
  choices that depend on rounding.
  A subscript \<^verbatim>\<open>d[k]\<close> on a missing key raises \<^verbatim>\<open>KeyError\<close>; every function that
  subscripts a dictionary therefore returns a sum whose left injection is the exception.
  Python's leading underscore of private helper names is dropped, since an Isabelle
  name cannot start with one.
\<close>

type_synonym state = "string \<rightharpoonup> real"

datatype py_error =
    KeyError string
  | ZeroDivisionError
  | IndexError

definition PATINA_PARAMETER_NAMES :: "string list" where
  "PATINA_PARAMETER_NAMES =
     [''exposure_duration'', ''agent_intensity'', ''material_resistance'',
      ''intervention_state'', ''aesthetic_character'']"

definition PATINA_PARAMETER_BOUNDS :: "real \<times> real" where
  "PATINA_PARAMETER_BOUNDS = (0, 1)"

text \<open>A dictionary literal with the five axes, in the order the source writes them.\<close>

definition point :: "real \<Rightarrow> real \<Rightarrow> real \<Rightarrow> real \<Rightarrow> real \<Rightarrow> state" where
  "point e a r i c =
     [''exposure_duration'' \<mapsto> e, ''agent_intensity'' \<mapsto> a, ''material_resistance'' \<mapsto> r,
      ''intervention_state'' \<mapsto> i, ''aesthetic_character'' \<mapsto> c]"

text \<open>
  A coordinate is well formed when it defines exactly the five axes; it is valid when,
  in addition, every value lies within \<open>PATINA_PARAMETER_BOUNDS\<close>.
\<close>

definition has_axes :: "state \<Rightarrow> bool" where
  "has_axes s \<longleftrightarrow> dom s = set PATINA_PARAMETER_NAMES"

definition in_bounds :: "state \<Rightarrow> bool" where
  "in_bounds s \<longleftrightarrow>
     (\<forall>p \<in> set PATINA_PARAMETER_NAMES.
        case s p of None \<Rightarrow> False
        | Some v \<Rightarrow> fst PATINA_PARAMETER_BOUNDS \<le> v \<and> v \<le> snd PATINA_PARAMETER_BOUNDS)"

definition valid_coord :: "state \<Rightarrow> bool" where
  "valid_coord s \<longleftrightarrow> has_axes s \<and> in_bounds s"

subsection \<open>Canonical states\<close>

definition PATINA_CANONICAL_STATES :: "(string \<times> state) list" where
  "PATINA_CANONICAL_STATES =
     [(''fresh_pristine'', point 0.00 0.00 0.50 0.00 0.50),
      (''gentle_patina'', point 0.30 0.20 0.60 0.05 0.85),
      (''noble_verdigris'', point 0.60 0.45 0.75 0.10 0.95),
      (''deep_rust'', point 0.55 0.70 0.40 0.05 0.55),
      (''stone_erosion'', point 0.70 0.55 0.65 0.15 0.75),
      (''paper_foxing'', point 0.45 0.35 0.15 0.20 0.60),
      (''cracked_glaze'', point 0.50 0.40 0.55 0.10 0.80),
      (''total_ruin'', point 0.95 0.90 0.30 0.00 0.40)]"

subsection \<open>Visual types\<close>

text \<open>
  Of each visual type only the \<^verbatim>\<open>"center"\<close> coordinate enters the geometry. The
  keyword, optical and colour tables are descriptive text and are not part of this list.
\<close>

definition PATINA_VISUAL_TYPES :: "(string \<times> state) list" where
  "PATINA_VISUAL_TYPES =
     [(''pristine_surface'', point 0.05 0.05 0.50 0.05 0.50),
      (''warm_aged'', point 0.30 0.20 0.60 0.05 0.85),
      (''oxidation_bloom'', point 0.55 0.55 0.55 0.08 0.75),
      (''erosion_sculpted'', point 0.70 0.60 0.60 0.12 0.70),
      (''fracture_network'', point 0.50 0.45 0.45 0.10 0.75),
      (''archaeological_layer'', point 0.90 0.80 0.35 0.05 0.45)]"

section \<open>Distance\<close>

text \<open>
  \<^verbatim>\<open>sum((a[p] - b[p]) ** 2 for p in PATINA_PARAMETER_NAMES)\<close>: the generator is consumed
  left to right, \<^verbatim>\<open>a[p]\<close> is evaluated before \<^verbatim>\<open>b[p]\<close>, and the first missing key
  raises.
\<close>

fun sum_sq_diff :: "state \<Rightarrow> state \<Rightarrow> string list \<Rightarrow> real \<Rightarrow> py_error + real" where
  "sum_sq_diff a b [] acc = Inr acc"
| "sum_sq_diff a b (p # ps) acc =
     (case a p of
        None \<Rightarrow> Inl (KeyError p)
      | Some x \<Rightarrow>
          (case b p of
             None \<Rightarrow> Inl (KeyError p)
           | Some y \<Rightarrow> sum_sq_diff a b ps (acc + (x - y)\<^sup>2)))"

definition patina_euclidean_distance :: "state \<Rightarrow> state \<Rightarrow> py_error + real" where
  "patina_euclidean_distance a b =
     (case sum_sq_diff a b PATINA_PARAMETER_NAMES 0 of
        Inl e \<Rightarrow> Inl e
      | Inr s \<Rightarrow> Inr (sqrt s))"

text \<open>The sum of squared differences over a list of axes, for coordinates that define them.\<close>

definition sq_sum :: "state \<Rightarrow> state \<Rightarrow> string list \<Rightarrow> real" where
  "sq_sum a b ps = (\<Sum>p\<leftarrow>ps. (the (a p) - the (b p))\<^sup>2)"

section \<open>Interpolation\<close>

text \<open>
  The dictionary comprehension of \<^verbatim>\<open>_patina_interpolate_states\<close> inserts one key per
  axis name, in order; \<^verbatim>\<open>state_a[p]\<close> is read before \<^verbatim>\<open>state_b[p]\<close>.
\<close>

definition alpha_of :: "string \<Rightarrow> real \<Rightarrow> real" where
  "alpha_of pattern t =
     (if pattern = ''sinusoidal'' then 0.5 * (1.0 - cos (pi * t))
      else if pattern = ''triangular'' then (if t \<le> 0.5 then 2.0 * t else 2.0 * (1.0 - t))
      else if pattern = ''square'' then (if t < 0.5 then 0.0 else 1.0)
      else t)"

fun interpolate_axes :: "state \<Rightarrow> state \<Rightarrow> real \<Rightarrow> string list \<Rightarrow> state \<Rightarrow> py_error + state" where
  "interpolate_axes state_a state_b alpha [] acc = Inr acc"
| "interpolate_axes state_a state_b alpha (p # ps) acc =
     (case state_a p of
        None \<Rightarrow> Inl (KeyError p)
      | Some x \<Rightarrow>
          (case state_b p of
             None \<Rightarrow> Inl (KeyError p)
           | Some y \<Rightarrow>
               interpolate_axes state_a state_b alpha ps (acc(p \<mapsto> x + alpha * (y - x)))))"

definition patina_interpolate_states :: "state \<Rightarrow> state \<Rightarrow> real \<Rightarrow> string \<Rightarrow> py_error + state" where
  "patina_interpolate_states state_a state_b t pattern =
     interpolate_axes state_a state_b (alpha_of pattern t) PATINA_PARAMETER_NAMES Map.empty"

section \<open>Nearest-neighbour classification\<close>

text \<open>
  \<^verbatim>\<open>_patina_nearest_canonical\<close> and \<^verbatim>\<open>_patina_nearest_visual_type\<close> are the same loop
  over two catalogues: the pair \<^verbatim>\<open>(best_id, best_dist)\<close> starts as
  \<^verbatim>\<open>(None, float("inf"))\<close> and is replaced whenever \<^verbatim>\<open>d < best_dist\<close>. The pair is
  modelled as an option: \<open>None\<close> is the initial pair, against which every distance is
  smaller, and \<open>Some (sid, d)\<close> is a pair set by the loop. A catalogue is the list of
  its items in insertion order, which is the order \<^verbatim>\<open>.items()\<close> iterates in.

  The loop compares the numbers that the distance computation hands it and does nothing
  else with them. The computation is therefore an argument \<open>distance\<close> of the scan: the program
  runs the scan on the doubles that \<^verbatim>\<open>_patina_euclidean_distance\<close> returns, and
  \<open>patina_nearest_canonical\<close> and \<open>patina_nearest_visual_type\<close> below run it on the
  exact distance. Two entries at the same exact distance from a point can be at different
  computed distances, so at such a point the exact reading and the program may name
  different entries; what is proved of the scan is proved for every \<open>distance\<close>.
\<close>

fun nearest_scan ::
  "(state \<Rightarrow> state \<Rightarrow> py_error + real) \<Rightarrow> state \<Rightarrow> (string \<times> state) list
     \<Rightarrow> (string \<times> real) option \<Rightarrow> py_error + (string \<times> real) option"
where
  "nearest_scan distance state [] best = Inr best"
| "nearest_scan distance state ((sid, coords) # rest) best =
     (case distance state coords of
        Inl e \<Rightarrow> Inl e
      | Inr d \<Rightarrow>
          nearest_scan distance state rest
            (if (case best of None \<Rightarrow> True | Some (best_id, best_dist) \<Rightarrow> d < best_dist)
             then Some (sid, d) else best))"

definition patina_nearest_canonical :: "state \<Rightarrow> py_error + (string \<times> real) option" where
  "patina_nearest_canonical state =
     nearest_scan patina_euclidean_distance state PATINA_CANONICAL_STATES None"

definition patina_nearest_visual_type :: "state \<Rightarrow> py_error + (string \<times> real) option" where
  "patina_nearest_visual_type state =
     nearest_scan patina_euclidean_distance state PATINA_VISUAL_TYPES None"

text \<open>
  What the scan needs of a distance computation at a point and a catalogue: it returns
  a non-negative number for every entry, 0 for an entry equal to the point, and a
  positive number for the other entries when the point is itself an entry.
\<close>

definition distance_like ::
  "(state \<Rightarrow> state \<Rightarrow> py_error + real) \<Rightarrow> state \<Rightarrow> (string \<times> state) list \<Rightarrow> bool"
where
  "distance_like distance state catalog \<longleftrightarrow>
     (\<forall>c \<in> snd ` set catalog.
        \<exists>d. distance state c = Inr d \<and> 0 \<le> d \<and> (c = state \<longrightarrow> d = 0) \<and>
            (c \<noteq> state \<and> state \<in> snd ` set catalog \<longrightarrow> 0 < d))"

text \<open>
  What the classification claim asks of a result, in terms of the distances the scan was
  given: an identifier of the catalogue with a
  non-negative distance, which is the distance to that entry and is minimal; every
  entry before the winner is strictly farther, so the first of several nearest entries
  wins; and an entry that coincides with the point is returned at distance 0.
\<close>

definition nearest_ok ::
  "(state \<Rightarrow> state \<Rightarrow> py_error + real) \<Rightarrow> state \<Rightarrow> (string \<times> state) list
     \<Rightarrow> py_error + (string \<times> real) option \<Rightarrow> bool"
where
  "nearest_ok distance state catalog result \<longleftrightarrow>
     (\<exists>sid d i.
        result = Inr (Some (sid, d)) \<and> i < length catalog \<and> fst (catalog ! i) = sid \<and>
        distance state (snd (catalog ! i)) = Inr d \<and> 0 \<le> d \<and>
        (\<forall>j < length catalog.
           \<exists>dj. distance state (snd (catalog ! j)) = Inr dj \<and> d \<le> dj \<and>
                (j < i \<longrightarrow> d < dj)) \<and>
        (\<forall>j < length catalog. snd (catalog ! j) = state \<longrightarrow> j = i \<and> d = 0))"

section \<open>Returned values\<close>

text \<open>
  Every tool returns \<^verbatim>\<open>json.dumps\<close> of a dictionary. The model returns the value that is
  serialised: a JSON tree whose objects keep the insertion order of their keys. A tool's
  result is a sum: \<open>Inl\<close> is an exception that escapes the tool, \<open>Inr\<close> is the returned
  object, which is an error report when it carries the key \<^verbatim>\<open>"error"\<close>.
\<close>

datatype json =
    JNull
  | JInt int
  | JNum real
  | JInfinity
  | JStr string
  | JList "json list"
  | JObj "(string \<times> json) list"

definition is_error_result :: "py_error + json \<Rightarrow> bool" where
  "is_error_result r \<longleftrightarrow>
     (case r of Inr (JObj fs) \<Rightarrow> ''error'' \<in> fst ` set fs | _ \<Rightarrow> False)"


definition field :: "string \<Rightarrow> json \<Rightarrow> json option" where
  "field k j = (case j of JObj fs \<Rightarrow> map_of fs k | _ \<Rightarrow> None)"

definition sequence_of :: "py_error + json \<Rightarrow> json list" where
  "sequence_of r =
     (case r of
        Inr j \<Rightarrow> (case field ''sequence'' j of Some (JList samples) \<Rightarrow> samples | _ \<Rightarrow> [])
      | Inl e \<Rightarrow> [])"

definition without_key :: "string \<Rightarrow> json \<Rightarrow> json" where
  "without_key k j = (case j of JObj fs \<Rightarrow> JObj (filter (\<lambda>kv. fst kv \<noteq> k) fs) | _ \<Rightarrow> j)"

text \<open>
  Python's \<^verbatim>\<open>round(x)\<close> rounds to the nearest integer and a tie to the even one;
  \<^verbatim>\<open>round(x, 4)\<close> is read on the reals as that rounding of \<open>x * 10\<^sup>4\<close>, scaled back.
\<close>

definition py_round :: "real \<Rightarrow> int" where
  "py_round x =
     (let f = \<lfloor>x\<rfloor>; r = x - of_int f
      in if r < 1 / 2 then f else if 1 / 2 < r then f + 1 else if even f then f else f + 1)"

definition round4 :: "real \<Rightarrow> real" where
  "round4 x = of_int (py_round (x * 10 ^ 4)) / 10 ^ 4"

text \<open>
  \<^verbatim>\<open>{k: round(v, 4) for k, v in state.items()}\<close> for a state built by the interpolation,
  whose keys are the axis names in their order.
\<close>

definition rounded_state :: "state \<Rightarrow> json" where
  "rounded_state state =
     JObj (List.map_filter (\<lambda>k. map_option (\<lambda>v. (k, JNum (round4 v))) (state k))
             PATINA_PARAMETER_NAMES)"

text \<open>The two components of the pair a nearest-neighbour scan returns, as JSON.\<close>

definition best_id_json :: "(string \<times> real) option \<Rightarrow> json" where
  "best_id_json best = (case best of None \<Rightarrow> JNull | Some (best_id, best_dist) \<Rightarrow> JStr best_id)"

definition best_dist_json :: "(string \<times> real) option \<Rightarrow> json" where
  "best_dist_json best =
     (case best of None \<Rightarrow> JInfinity | Some (best_id, best_dist) \<Rightarrow> JNum (round4 best_dist))"

text \<open>Subscript on a dictionary given by its items; \<^verbatim>\<open>range(n)\<close>; a loop that appends.\<close>

definition dict_get :: "(string \<times> 'a) list \<Rightarrow> string \<Rightarrow> py_error + 'a" where
  "dict_get d k = (case map_of d k of None \<Rightarrow> Inl (KeyError k) | Some v \<Rightarrow> Inr v)"

definition py_range :: "int \<Rightarrow> int list" where
  "py_range n = map int [0..<nat n]"

fun for_each :: "('a \<Rightarrow> py_error + 'b) \<Rightarrow> 'a list \<Rightarrow> py_error + 'b list" where
  "for_each body [] = Inr []"
| "for_each body (x # xs) =
     (case body x of
        Inl e \<Rightarrow> Inl e
      | Inr y \<Rightarrow> (case for_each body xs of Inl e \<Rightarrow> Inl e | Inr ys \<Rightarrow> Inr (y # ys)))"

section \<open>Rhythmic presets and sequences\<close>

text \<open>
  A preset configuration. Its \<^verbatim>\<open>"description"\<close> is free text that no computation reads;
  it is left out of the configuration and of the object a tool returns.
\<close>

record preset =
  cfg_period :: int
  cfg_state_a :: string
  cfg_state_b :: string
  cfg_pattern :: string

definition PATINA_RHYTHMIC_PRESETS :: "(string \<times> preset) list" where
  "PATINA_RHYTHMIC_PRESETS =
     [(''aging_cycle'',
         \<lparr>cfg_period = 16, cfg_state_a = ''fresh_pristine'', cfg_state_b = ''deep_rust'',
          cfg_pattern = ''triangular''\<rparr>),
      (''restoration_pendulum'',
         \<lparr>cfg_period = 20, cfg_state_a = ''total_ruin'', cfg_state_b = ''gentle_patina'',
          cfg_pattern = ''sinusoidal''\<rparr>),
      (''oxidation_bloom'',
         \<lparr>cfg_period = 24, cfg_state_a = ''fresh_pristine'', cfg_state_b = ''noble_verdigris'',
          cfg_pattern = ''sinusoidal''\<rparr>),
      (''erosion_pulse'',
         \<lparr>cfg_period = 18, cfg_state_a = ''stone_erosion'', cfg_state_b = ''gentle_patina'',
          cfg_pattern = ''sinusoidal''\<rparr>),
      (''entropy_wave'',
         \<lparr>cfg_period = 30, cfg_state_a = ''gentle_patina'', cfg_state_b = ''total_ruin'',
          cfg_pattern = ''sinusoidal''\<rparr>)]"

text \<open>
  The body of the loop of \<^verbatim>\<open>apply_patina_rhythmic_preset\<close>: \<^verbatim>\<open>t = step / period\<close> is true
  division, which raises on a zero divisor.
\<close>

definition preset_sample :: "state \<Rightarrow> state \<Rightarrow> string \<Rightarrow> int \<Rightarrow> int \<Rightarrow> py_error + json" where
  "preset_sample state_a state_b pattern period step =
     (if period = 0 then Inl ZeroDivisionError
      else
        let t = real_of_int step / real_of_int period in
        case patina_interpolate_states state_a state_b t pattern of
          Inl e \<Rightarrow> Inl e
        | Inr state \<Rightarrow>
            (case patina_nearest_visual_type state of
               Inl e \<Rightarrow> Inl e
             | Inr best \<Rightarrow>
                 Inr (JObj
                   [(''step'', JInt step),
                    (''phase'', JNum (round4 t)),
                    (''state'', rounded_state state),
                    (''nearest_visual_type'', best_id_json best),
                    (''visual_distance'', best_dist_json best)])))"

definition apply_patina_rhythmic_preset :: "string \<Rightarrow> py_error + json" where
  "apply_patina_rhythmic_preset preset_name =
     (case map_of PATINA_RHYTHMIC_PRESETS preset_name of
        None \<Rightarrow>
          Inr (JObj
            [(''error'', JStr (''Unknown preset: '' @ preset_name)),
             (''available'', JList (map (\<lambda>kv. JStr (fst kv)) PATINA_RHYTHMIC_PRESETS))])
      | Some cfg \<Rightarrow>
          (case dict_get PATINA_CANONICAL_STATES (cfg_state_a cfg) of
             Inl e \<Rightarrow> Inl e
           | Inr state_a \<Rightarrow>
               (case dict_get PATINA_CANONICAL_STATES (cfg_state_b cfg) of
                  Inl e \<Rightarrow> Inl e
                | Inr state_b \<Rightarrow>
                    (case for_each (preset_sample state_a state_b (cfg_pattern cfg) (cfg_period cfg))
                            (py_range (cfg_period cfg)) of
                       Inl e \<Rightarrow> Inl e
                     | Inr sequence \<Rightarrow>
                         Inr (JObj
                           [(''preset'', JStr preset_name),
                            (''period'', JInt (cfg_period cfg)),
                            (''pattern'', JStr (cfg_pattern cfg)),
                            (''state_a'', JStr (cfg_state_a cfg)),
                            (''state_b'', JStr (cfg_state_b cfg)),
                            (''sequence'', JList sequence),
                            (''total_steps'', JInt (int (length sequence)))])))))"

text \<open>
  The body of the loop of \<^verbatim>\<open>generate_patina_rhythmic_sequence\<close>. \<^verbatim>\<open>raw_t % 1.0\<close> with a
  positive divisor is the fractional part; \<^verbatim>\<open>step // steps_per_cycle\<close> is floor division,
  as \<open>div\<close> on the integers is.
\<close>

definition rhythmic_sample ::
  "state \<Rightarrow> state \<Rightarrow> string \<Rightarrow> int \<Rightarrow> real \<Rightarrow> int \<Rightarrow> py_error + json"
where
  "rhythmic_sample state_a state_b oscillation_pattern steps_per_cycle phase_offset step =
     (if steps_per_cycle = 0 then Inl ZeroDivisionError
      else
        let raw_t = real_of_int step / real_of_int steps_per_cycle + phase_offset;
            t = frac raw_t
        in
        case patina_interpolate_states state_a state_b t oscillation_pattern of
          Inl e \<Rightarrow> Inl e
        | Inr state \<Rightarrow>
            (case patina_nearest_visual_type state of
               Inl e \<Rightarrow> Inl e
             | Inr best \<Rightarrow>
                 Inr (JObj
                   [(''step'', JInt step),
                    (''cycle'', JInt (step div steps_per_cycle)),
                    (''phase'', JNum (round4 t)),
                    (''state'', rounded_state state),
                    (''nearest_visual_type'', best_id_json best),
                    (''visual_distance'', best_dist_json best)])))"

definition unknown_state :: "string \<Rightarrow> json" where
  "unknown_state sid =
     JObj [(''error'', JStr (''Unknown: '' @ sid)),
           (''available'', JList (map (\<lambda>kv. JStr (fst kv)) PATINA_CANONICAL_STATES))]"

definition generate_patina_rhythmic_sequence ::
  "string \<Rightarrow> string \<Rightarrow> string \<Rightarrow> int \<Rightarrow> int \<Rightarrow> real \<Rightarrow> py_error + json"
where
  "generate_patina_rhythmic_sequence state_a_id state_b_id oscillation_pattern num_cycles
       steps_per_cycle phase_offset =
     (if state_a_id \<notin> fst ` set PATINA_CANONICAL_STATES then Inr (unknown_state state_a_id)
      else if state_b_id \<notin> fst ` set PATINA_CANONICAL_STATES then Inr (unknown_state state_b_id)
      else
        case dict_get PATINA_CANONICAL_STATES state_a_id of
          Inl e \<Rightarrow> Inl e
        | Inr state_a \<Rightarrow>
            (case dict_get PATINA_CANONICAL_STATES state_b_id of
               Inl e \<Rightarrow> Inl e
             | Inr state_b \<Rightarrow>
                 (let total_steps = num_cycles * steps_per_cycle in
                  case for_each
                         (rhythmic_sample state_a state_b oscillation_pattern steps_per_cycle
                            phase_offset)
                         (py_range total_steps) of
                    Inl e \<Rightarrow> Inl e
                  | Inr sequence \<Rightarrow>
                      Inr (JObj
                        [(''state_a'', JStr state_a_id),
                         (''state_b'', JStr state_b_id),
                         (''pattern'', JStr oscillation_pattern),
                         (''num_cycles'', JInt num_cycles),
                         (''steps_per_cycle'', JInt steps_per_cycle),
                         (''phase_offset'', JNum phase_offset),
                         (''total_steps'', JInt total_steps),
                         (''sequence'', JList sequence)]))))"

section \<open>Vocabulary selection\<close>

text \<open>
  \<^verbatim>\<open>PATINA_VISUAL_VOCABULARY\<close> maps each category to its graded list of phrases. The
  phrases are Unicode text that no computation inspects, so the table is a parameter of
  the model, given by its items in insertion order; the phrase type is left open. What
  is proved holds for every table, the one of the source included.
\<close>

definition getitem :: "state \<Rightarrow> string \<Rightarrow> py_error + real" where
  "getitem state k = (case state k of None \<Rightarrow> Inl (KeyError k) | Some v \<Rightarrow> Inr v)"

text \<open>
  The subscript \<^verbatim>\<open>terms[i]\<close> of a list of length \<open>n\<close>: positions \<open>0 .. n - 1\<close> read from the
  front, positions \<open>- n .. - 1\<close> from the back, anything else is an \<^verbatim>\<open>IndexError\<close>.
\<close>

definition py_index :: "'a list \<Rightarrow> int \<Rightarrow> py_error + 'a" where
  "py_index xs i =
     (if 0 \<le> i \<and> i < int (length xs) then Inr (xs ! nat i)
      else if i < 0 \<and> - int (length xs) \<le> i then Inr (xs ! nat (int (length xs) + i))
      else Inl IndexError)"

text \<open>\<^verbatim>\<open>list(dict.fromkeys(xs))\<close>: the first occurrence of each element, in order.\<close>

definition dict_fromkeys :: "'a list \<Rightarrow> 'a list" where
  "dict_fromkeys xs = foldl (\<lambda>acc x. if x \<in> set acc then acc else acc @ [x]) [] xs"

text \<open>
  The \<^verbatim>\<open>if\<close>/\<^verbatim>\<open>elif\<close> chain on the category name, which computes \<^verbatim>\<open>idx\<close> before it is
  clamped; \<open>n\<close> is \<^verbatim>\<open>len(terms)\<close>.
\<close>

definition vocabulary_index :: "string \<Rightarrow> state \<Rightarrow> int \<Rightarrow> py_error + int" where
  "vocabulary_index category state n =
     (if category = ''surface_texture'' then
        (case getitem state ''exposure_duration'' of
           Inl e \<Rightarrow> Inl e
         | Inr ex \<Rightarrow> Inr (py_round (ex * real_of_int (n - 1))))
      else if category = ''color_transformation'' then
        (case getitem state ''exposure_duration'' of
           Inl e \<Rightarrow> Inl e
         | Inr ex \<Rightarrow>
             (case getitem state ''agent_intensity'' of
                Inl e \<Rightarrow> Inl e
              | Inr ag \<Rightarrow>
                  (let v = (ex + ag) / 2.0 in Inr (py_round (v * real_of_int (n - 1))))))
      else if category = ''structural_integrity'' then
        (case getitem state ''agent_intensity'' of
           Inl e \<Rightarrow> Inl e
         | Inr ag \<Rightarrow>
             (case getitem state ''material_resistance'' of
                Inl e \<Rightarrow> Inl e
              | Inr res \<Rightarrow>
                  (let v = ag * (1.0 - res * 0.5) in Inr (py_round (v * real_of_int (n - 1))))))
      else if category = ''biological_colonization'' then
        (case getitem state ''exposure_duration'' of
           Inl e \<Rightarrow> Inl e
         | Inr ex \<Rightarrow>
             (case getitem state ''agent_intensity'' of
                Inl e \<Rightarrow> Inl e
              | Inr ag \<Rightarrow>
                  (let v = ex * 0.6 + ag * 0.4 in Inr (py_round (v * real_of_int (n - 1))))))
      else if category = ''light_interaction'' then
        (case getitem state ''exposure_duration'' of
           Inl e \<Rightarrow> Inl e
         | Inr ex \<Rightarrow>
             (case getitem state ''agent_intensity'' of
                Inl e \<Rightarrow> Inl e
              | Inr ag \<Rightarrow>
                  (case getitem state ''intervention_state'' of
                     Inl e \<Rightarrow> Inl e
                   | Inr iv \<Rightarrow>
                       (let v = ex * 0.5 + ag * 0.3 + (1.0 - iv) * 0.2
                        in Inr (py_round (v * real_of_int (n - 1)))))))
      else if category = ''temporal_evidence'' then
        (case getitem state ''exposure_duration'' of
           Inl e \<Rightarrow> Inl e
         | Inr ex \<Rightarrow> Inr (py_round (ex * real_of_int (n - 1))))
      else Inr 0)"

text \<open>The rest of the loop body: clamp, pick the three neighbours, deduplicate.\<close>

definition select_terms :: "string \<Rightarrow> 'a list \<Rightarrow> state \<Rightarrow> py_error + 'a list" where
  "select_terms category terms state =
     (case vocabulary_index category state (int (length terms)) of
        Inl e \<Rightarrow> Inl e
      | Inr idx0 \<Rightarrow>
          (let n = int (length terms);
               idx = max 0 (min idx0 (n - 1))
           in
           case py_index terms (max 0 (idx - 1)) of
             Inl e \<Rightarrow> Inl e
           | Inr left \<Rightarrow>
               (case py_index terms idx of
                  Inl e \<Rightarrow> Inl e
                | Inr mid \<Rightarrow>
                    (case py_index terms (min (n - 1) (idx + 1)) of
                       Inl e \<Rightarrow> Inl e
                     | Inr right \<Rightarrow> Inr (dict_fromkeys [left, mid, right])))))"

definition patina_select_vocabulary ::
  "(string \<times> 'a list) list \<Rightarrow> state \<Rightarrow> py_error + (string \<times> 'a list) list"
where
  "patina_select_vocabulary vocabulary state =
     for_each
       (\<lambda>(category, terms).
          case select_terms category terms state of
            Inl e \<Rightarrow> Inl e
          | Inr selected \<Rightarrow> Inr (category, selected))
       vocabulary"

text \<open>
  The scalar of each category, as the branches above compute it from a coordinate that
  defines the axes, and the index the selector derives from it.
\<close>

definition category_scalar :: "string \<Rightarrow> state \<Rightarrow> real" where
  "category_scalar category state =
     (let ex = the (state ''exposure_duration''); ag = the (state ''agent_intensity'');
          res = the (state ''material_resistance''); iv = the (state ''intervention_state'')
      in if category = ''surface_texture'' then ex
         else if category = ''color_transformation'' then (ex + ag) / 2
         else if category = ''structural_integrity'' then ag * (1 - res * 0.5)
         else if category = ''biological_colonization'' then ex * 0.6 + ag * 0.4
         else if category = ''light_interaction'' then ex * 0.5 + ag * 0.3 + (1 - iv) * 0.2
         else if category = ''temporal_evidence'' then ex
         else 0)"

definition clamped_index :: "string \<Rightarrow> state \<Rightarrow> nat \<Rightarrow> int" where
  "clamped_index category state n =
     max 0 (min (py_round (category_scalar category state * real_of_int (int n - 1))) (int n - 1))"

section \<open>Attractor presets and prompt assembly\<close>

text \<open>
  An attractor entry. Its state is kept as the items of the dictionary, in the order the
  source writes them, because the tool reports them in that order; \<open>map_of\<close> turns the
  items into the coordinate. Name, description and source domains are free text.
\<close>

record attractor =
  att_basin_size :: "real option"
  att_classification :: string
  att_state :: "(string \<times> real) list"

definition axis_items :: "real \<Rightarrow> real \<Rightarrow> real \<Rightarrow> real \<Rightarrow> real \<Rightarrow> (string \<times> real) list" where
  "axis_items e a r i c =
     [(''exposure_duration'', e), (''agent_intensity'', a), (''material_resistance'', r),
      (''intervention_state'', i), (''aesthetic_character'', c)]"

definition PATINA_ATTRACTOR_PRESETS :: "(string \<times> attractor) list" where
  "PATINA_ATTRACTOR_PRESETS =
     [(''period_30'',
         \<lparr>att_basin_size = Some 0.116, att_classification = ''lcm_sync'',
          att_state = axis_items 0.40 0.30 0.55 0.15 0.75\<rparr>),
      (''period_29'',
         \<lparr>att_basin_size = Some 0.084, att_classification = ''lcm_sync'',
          att_state = axis_items 0.55 0.40 0.60 0.10 0.70\<rparr>),
      (''period_19'',
         \<lparr>att_basin_size = Some 0.074, att_classification = ''novel'',
          att_state = axis_items 0.48 0.42 0.65 0.08 0.82\<rparr>),
      (''period_28'',
         \<lparr>att_basin_size = Some 0.024, att_classification = ''novel'',
          att_state = axis_items 0.52 0.48 0.50 0.12 0.72\<rparr>),
      (''period_60'',
         \<lparr>att_basin_size = Some 0.040, att_classification = ''harmonic'',
          att_state = axis_items 0.50 0.45 0.52 0.10 0.65\<rparr>),
      (''bifurcation_edge'',
         \<lparr>att_basin_size = None, att_classification = ''curated'',
          att_state = axis_items 0.52 0.50 0.48 0.05 0.65\<rparr>),
      (''organic_complexity'',
         \<lparr>att_basin_size = None, att_classification = ''curated'',
          att_state = axis_items 0.35 0.20 0.70 0.10 0.95\<rparr>)]"

text \<open>
  The descriptive tables the prompt is assembled from are Unicode text; they are a
  parameter of the model: the vocabulary, and per visual type its keywords, optical
  properties and colour associations, and per attractor its name.
\<close>

record text_tables =
  tt_vocabulary :: "(string \<times> string list) list"
  tt_keywords :: "string \<Rightarrow> string list"
  tt_optical :: "string \<Rightarrow> json"
  tt_color_associations :: "string \<Rightarrow> json"
  tt_attractor_name :: "string \<Rightarrow> string"

subsection \<open>String helpers\<close>

text \<open>
  \<^verbatim>\<open>s.replace(old, new)\<close> replaces the occurrences of \<open>old\<close> from the left, without
  overlap; an empty \<open>old\<close> matches before every character and at the end.
\<close>

fun str_replace :: "string \<Rightarrow> string \<Rightarrow> string \<Rightarrow> string" where
  "str_replace old new [] = (if old = [] then new else [])"
| "str_replace old new (c # cs) =
     (if old = [] then new @ concat (map (\<lambda>x. x # new) (c # cs))
      else if take (length old) (c # cs) = old
        then new @ str_replace old new (drop (length old) (c # cs))
      else c # str_replace old new cs)"

text \<open>
  \<^verbatim>\<open>int(s)\<close> on a string of decimal digits; \<open>None\<close> is the \<^verbatim>\<open>ValueError\<close> that the
  source catches. The only strings that reach it are attractor identifiers with the text
  \<^verbatim>\<open>period_\<close> removed: digit strings and names made of letters and underscores. Signs,
  surrounding blanks and underscores between digits, which Python also accepts, are not
  modelled.
\<close>

definition digit_of :: "char \<Rightarrow> int option" where
  "digit_of c =
     map_of [(CHR ''0'', 0), (CHR ''1'', 1), (CHR ''2'', 2), (CHR ''3'', 3), (CHR ''4'', 4),
             (CHR ''5'', 5), (CHR ''6'', 6), (CHR ''7'', 7), (CHR ''8'', 8), (CHR ''9'', 9)] c"

fun digits_value :: "string \<Rightarrow> int \<Rightarrow> int option" where
  "digits_value [] acc = Some acc"
| "digits_value (c # cs) acc =
     (case digit_of c of None \<Rightarrow> None | Some d \<Rightarrow> digits_value cs (10 * acc + d))"

definition py_int :: "string \<Rightarrow> int option" where
  "py_int s = (if s = [] then None else digits_value s 0)"

text \<open>\<^verbatim>\<open>sep.join(xs)\<close>, and the loop that keeps the first occurrence of each keyword.\<close>

fun join :: "string \<Rightarrow> string list \<Rightarrow> string" where
  "join sep [] = []"
| "join sep [x] = x"
| "join sep (x # y # ys) = x @ sep @ join sep (y # ys)"

fun unique_keywords :: "string list \<Rightarrow> string set \<Rightarrow> string list \<Rightarrow> string list" where
  "unique_keywords [] seen unique = unique"
| "unique_keywords (kw # kws) seen unique =
     (if kw \<notin> seen then unique_keywords kws (insert kw seen) (unique @ [kw])
      else unique_keywords kws seen unique)"

definition keyword_prompt ::
  "string \<Rightarrow> string list \<Rightarrow> (string \<times> string list) list \<Rightarrow> string"
where
  "keyword_prompt prefix keywords vocab =
     prefix @ join '', '' (unique_keywords (keywords @ concat (map snd vocab)) {} [])"

subsection \<open>Resolving the state\<close>

text \<open>
  The first block of \<^verbatim>\<open>generate_patina_attractor_prompt\<close>. \<open>Inl\<close> is the error object of
  an early \<^verbatim>\<open>return\<close>; \<open>Inr\<close> is the pair of \<^verbatim>\<open>attractor_meta\<close> and the state's items. A
  custom state is checked for the five axis names, in order, and for nothing else.
\<close>

definition resolve_state ::
  "string \<Rightarrow> (string \<times> real) list option \<Rightarrow> json + (attractor option \<times> (string \<times> real) list)"
where
  "resolve_state attractor_id custom_state =
     (case custom_state of
        Some items \<Rightarrow>
          (case find (\<lambda>p. p \<notin> fst ` set items) PATINA_PARAMETER_NAMES of
             Some p \<Rightarrow>
               Inl (JObj [(''error'', JStr (''Missing parameter: '' @ p)),
                          (''required'', JList (map JStr PATINA_PARAMETER_NAMES))])
           | None \<Rightarrow> Inr (None, items))
      | None \<Rightarrow>
          (case map_of PATINA_ATTRACTOR_PRESETS attractor_id of
             Some attractor_meta \<Rightarrow> Inr (Some attractor_meta, att_state attractor_meta)
           | None \<Rightarrow>
               Inl (JObj [(''error'', JStr ''Provide attractor_id or custom_state''),
                          (''available_attractors'',
                             JList (map (\<lambda>kv. JStr (fst kv)) PATINA_ATTRACTOR_PRESETS))])))"

subsection \<open>Sequence mode\<close>

text \<open>
  The target period: the number in the identifier when the attractor has a basin size
  that is neither \<^verbatim>\<open>None\<close> nor zero, and 30 otherwise.
\<close>

definition target_period_of :: "string \<Rightarrow> attractor option \<Rightarrow> int" where
  "target_period_of attractor_id attractor_meta =
     (let target_period =
            (case attractor_meta of
               None \<Rightarrow> None
             | Some meta \<Rightarrow>
                 (case att_basin_size meta of
                    None \<Rightarrow> None
                  | Some basin \<Rightarrow>
                      if basin \<noteq> 0 then py_int (str_replace ''period_'' [] attractor_id)
                      else None))
      in case target_period of None \<Rightarrow> 30 | Some p \<Rightarrow> p)"

text \<open>
  The scan for the preset of nearest period; \<^verbatim>\<open>(best_preset, best_period_diff)\<close> starts
  as \<^verbatim>\<open>(None, float("inf"))\<close>, modelled as \<open>None\<close>, and is replaced on a strictly smaller
  difference.
\<close>

fun nearest_period_scan ::
  "int \<Rightarrow> (string \<times> preset) list \<Rightarrow> (string \<times> int) option \<Rightarrow> (string \<times> int) option"
where
  "nearest_period_scan target_period [] best = best"
| "nearest_period_scan target_period ((pname, pcfg) # rest) best =
     (let diff = \<bar>cfg_period pcfg - target_period\<bar>
      in nearest_period_scan target_period rest
           (if (case best of None \<Rightarrow> True | Some (best_preset, best_period_diff) \<Rightarrow>
                  diff < best_period_diff)
            then Some (pname, diff) else best))"

text \<open>The body of the keyframe loop, which \<^verbatim>\<open>generate_patina_sequence_prompts\<close> shares.\<close>

definition keyframe ::
  "text_tables \<Rightarrow> string \<Rightarrow> state \<Rightarrow> state \<Rightarrow> string \<Rightarrow> int \<Rightarrow> int \<Rightarrow> int \<Rightarrow> py_error + json"
where
  "keyframe T prefix state_a state_b pattern period step_size ki =
     (if period = 0 then Inl ZeroDivisionError
      else
        let step = (ki * step_size) mod period;
            t = real_of_int step / real_of_int period
        in
        case patina_interpolate_states state_a state_b t pattern of
          Inl e \<Rightarrow> Inl e
        | Inr kf_state \<Rightarrow>
            (case patina_nearest_visual_type kf_state of
               Inl e \<Rightarrow> Inl e
             | Inr None \<Rightarrow> Inl (KeyError ''None'')
             | Inr (Some (kf_vtype, kf_vdist)) \<Rightarrow>
                 if kf_vtype \<notin> fst ` set PATINA_VISUAL_TYPES then Inl (KeyError kf_vtype)
                 else
                   (case patina_select_vocabulary (tt_vocabulary T) kf_state of
                      Inl e \<Rightarrow> Inl e
                    | Inr kf_vocab \<Rightarrow>
                        Inr (JObj
                          [(''keyframe'', JInt ki),
                           (''step'', JInt step),
                           (''phase'', JNum (round4 t)),
                           (''prompt'', JStr (keyword_prompt prefix (tt_keywords T kf_vtype) kf_vocab)),
                           (''nearest_visual_type'', JStr kf_vtype),
                           (''visual_distance'', JNum (round4 kf_vdist)),
                           (''state'', rounded_state kf_state)]))))"

definition attractor_json :: "text_tables \<Rightarrow> string \<Rightarrow> attractor option \<Rightarrow> bool \<Rightarrow> json" where
  "attractor_json T attractor_id attractor_meta with_basin =
     JObj
       ([(''id'', JStr (if attractor_id \<noteq> [] then attractor_id else ''custom'')),
         (''name'', JStr (case attractor_meta of
                            Some meta \<Rightarrow> tt_attractor_name T attractor_id
                          | None \<Rightarrow> ''Custom State''))]
        @ (if with_basin
           then [(''basin_size'',
                    (case attractor_meta of
                       Some meta \<Rightarrow> (case att_basin_size meta of Some b \<Rightarrow> JNum b | None \<Rightarrow> JNull)
                     | None \<Rightarrow> JNull))]
           else [])
        @ [(''classification'', JStr (case attractor_meta of
                                        Some meta \<Rightarrow> att_classification meta
                                      | None \<Rightarrow> ''custom''))])"

definition sequence_mode ::
  "text_tables \<Rightarrow> string \<Rightarrow> attractor option \<Rightarrow> string \<Rightarrow> int \<Rightarrow> py_error + json"
where
  "sequence_mode T attractor_id attractor_meta prefix keyframe_count =
     (let target_period = target_period_of attractor_id attractor_meta in
      case nearest_period_scan target_period PATINA_RHYTHMIC_PRESETS None of
        None \<Rightarrow> Inl (KeyError ''None'')
      | Some (best_preset, best_period_diff) \<Rightarrow>
          (case dict_get PATINA_RHYTHMIC_PRESETS best_preset of
             Inl e \<Rightarrow> Inl e
           | Inr cfg \<Rightarrow>
               (case dict_get PATINA_CANONICAL_STATES (cfg_state_a cfg) of
                  Inl e \<Rightarrow> Inl e
                | Inr state_a \<Rightarrow>
                    (case dict_get PATINA_CANONICAL_STATES (cfg_state_b cfg) of
                       Inl e \<Rightarrow> Inl e
                     | Inr state_b \<Rightarrow>
                         if keyframe_count = 0 then Inl ZeroDivisionError
                         else
                           (let period = cfg_period cfg;
                                step_size = max 1 (period div keyframe_count)
                            in
                            case for_each
                                   (keyframe T prefix state_a state_b (cfg_pattern cfg) period
                                      step_size)
                                   (py_range keyframe_count) of
                              Inl e \<Rightarrow> Inl e
                            | Inr keyframes \<Rightarrow>
                                Inr (JObj
                                  [(''mode'', JStr ''sequence''),
                                   (''preset_used'', JStr best_preset),
                                   (''preset_period'', JInt period),
                                   (''keyframe_count'', JInt keyframe_count),
                                   (''keyframes'', JList keyframes),
                                   (''attractor'',
                                      attractor_json T attractor_id attractor_meta False)]))))))"

subsection \<open>The tool\<close>

definition rounded_items :: "(string \<times> real) list \<Rightarrow> json" where
  "rounded_items items = JObj (map (\<lambda>(k, v). (k, JNum (round4 v))) items)"

definition generate_patina_attractor_prompt ::
  "text_tables \<Rightarrow> string \<Rightarrow> (string \<times> real) list option \<Rightarrow> string \<Rightarrow> string \<Rightarrow> int
     \<Rightarrow> py_error + json"
where
  "generate_patina_attractor_prompt T attractor_id custom_state mode style_modifier keyframe_count =
     (case resolve_state attractor_id custom_state of
        Inl error_object \<Rightarrow> Inr error_object
      | Inr (attractor_meta, items) \<Rightarrow>
          (let state = map_of items in
           case patina_nearest_visual_type state of
             Inl e \<Rightarrow> Inl e
           | Inr None \<Rightarrow> Inl (KeyError ''None'')
           | Inr (Some (vtype, vdist)) \<Rightarrow>
               if vtype \<notin> fst ` set PATINA_VISUAL_TYPES then Inl (KeyError vtype)
               else
                 (case patina_select_vocabulary (tt_vocabulary T) state of
                    Inl e \<Rightarrow> Inl e
                  | Inr vocab \<Rightarrow>
                      (case patina_nearest_canonical state of
                         Inl e \<Rightarrow> Inl e
                       | Inr nearest_canon \<Rightarrow>
                           (let prefix = (if style_modifier \<noteq> [] then style_modifier @ '', '' else [])
                            in
                            if mode = ''composite'' then
                              Inr (JObj
                                [(''mode'', JStr ''composite''),
                                 (''prompt'', JStr (keyword_prompt prefix (tt_keywords T vtype) vocab)),
                                 (''nearest_visual_type'', JStr vtype),
                                 (''visual_distance'', JNum (round4 vdist)),
                                 (''nearest_canonical_state'', best_id_json nearest_canon),
                                 (''optical_properties'', tt_optical T vtype),
                                 (''color_associations'', tt_color_associations T vtype),
                                 (''attractor'', attractor_json T attractor_id attractor_meta True),
                                 (''state'', rounded_items items)])
                            else if mode = ''split_view'' then
                              Inr (JObj
                                [(''mode'', JStr ''split_view''),
                                 (''panels'',
                                    JObj (map (\<lambda>(category, terms).
                                            (category,
                                             JObj [(''prompt'', JStr (prefix @ join '', '' terms)),
                                                   (''terms'', JList (map JStr terms))]))
                                          vocab)),
                                 (''nearest_visual_type'', JStr vtype),
                                 (''visual_distance'', JNum (round4 vdist)),
                                 (''optical_properties'', tt_optical T vtype),
                                 (''color_associations'', tt_color_associations T vtype),
                                 (''attractor'', attractor_json T attractor_id attractor_meta False),
                                 (''state'', rounded_items items)])
                            else if mode = ''sequence'' then
                              sequence_mode T attractor_id attractor_meta prefix keyframe_count
                            else
                              Inr (JObj
                                [(''error'', JStr (''Unknown mode: '' @ mode)),
                                 (''available'',
                                    JList [JStr ''composite'', JStr ''split_view'',
                                           JStr ''sequence''])]))))))"

text \<open>
  What the selection claim asks of the scan: a preset of the catalogue whose period is
  at the least distance from the target, every preset before it being strictly farther.
\<close>

definition nearest_period_ok ::
  "int \<Rightarrow> (string \<times> preset) list \<Rightarrow> (string \<times> int) option \<Rightarrow> bool"
where
  "nearest_period_ok target_period catalog result \<longleftrightarrow>
     (\<exists>pname diff i.
        result = Some (pname, diff) \<and> i < length catalog \<and> fst (catalog ! i) = pname \<and>
        diff = \<bar>cfg_period (snd (catalog ! i)) - target_period\<bar> \<and>
        (\<forall>j < length catalog.
           diff \<le> \<bar>cfg_period (snd (catalog ! j)) - target_period\<bar> \<and>
           (j < i \<longrightarrow> diff < \<bar>cfg_period (snd (catalog ! j)) - target_period\<bar>)))"

text \<open>
  A small instance of the text tables, with which the theorems below are instantiated:
  one category of three phrases, and each visual type described by its own identifier.
\<close>

definition sample_tables :: text_tables where
  "sample_tables =
     \<lparr>tt_vocabulary = [(''surface_texture'', [''smooth'', ''worn'', ''rough''])],
      tt_keywords = (\<lambda>v. [v]),
      tt_optical = (\<lambda>v. JNull),
      tt_color_associations = (\<lambda>v. JList []),
      tt_attractor_name = (\<lambda>a. a)\<rparr>"

text \<open>
  The midpoint of two coordinates, \<open>(a + b) / 2\<close> on every axis. It states what the
  specification expects of the triangular waveform at phase one half; it is not taken
  from the source.
\<close>

definition midpoint_coord :: "state \<Rightarrow> state \<Rightarrow> state" where
  "midpoint_coord a b =
     (\<lambda>p. if p \<in> set PATINA_PARAMETER_NAMES then Some ((the (a p) + the (b p)) / 2) else None)"

section \<open>Verification: interpolation\<close>

lemma interpolate_axes_total:
  "\<forall>p \<in> set ps. state_a p \<noteq> None \<and> state_b p \<noteq> None \<Longrightarrow>
   interpolate_axes state_a state_b alpha ps acc =
     Inr (\<lambda>q. if q \<in> set ps
               then Some (the (state_a q) + alpha * (the (state_b q) - the (state_a q)))
               else acc q)"
proof (induction ps arbitrary: acc)
  case Nil
  then show ?case by simp
next
  case (Cons p ps)
  then obtain x y where xy: "state_a p = Some x" "state_b p = Some y" by auto
  from Cons.prems have rest: "\<forall>p \<in> set ps. state_a p \<noteq> None \<and> state_b p \<noteq> None" by simp
  show ?case
    by (simp add: xy Cons.IH [OF rest]) (auto simp: fun_eq_iff xy)
qed

lemma has_axes_defined: "has_axes s \<Longrightarrow> p \<in> set PATINA_PARAMETER_NAMES \<Longrightarrow> s p \<noteq> None"
  by (auto simp: has_axes_def)

lemma has_axes_undefined: "has_axes s \<Longrightarrow> p \<notin> set PATINA_PARAMETER_NAMES \<Longrightarrow> s p = None"
  by (auto simp: has_axes_def)

lemma interpolate_has_axes:
  assumes "has_axes state_a" "has_axes state_b"
  shows "patina_interpolate_states state_a state_b t pattern =
     Inr (\<lambda>q. if q \<in> set PATINA_PARAMETER_NAMES
               then Some (the (state_a q) + alpha_of pattern t * (the (state_b q) - the (state_a q)))
               else None)"
  unfolding patina_interpolate_states_def
  by (rule interpolate_axes_total [THEN trans]) (use assms in \<open>auto dest: has_axes_defined\<close>)

lemma interpolate_alpha0:
  assumes "has_axes state_a" "has_axes state_b" "alpha_of pattern t = 0"
  shows "patina_interpolate_states state_a state_b t pattern = Inr state_a"
proof -
  have "(if q \<in> set PATINA_PARAMETER_NAMES
          then Some (the (state_a q) + 0 * (the (state_b q) - the (state_a q))) else None) = state_a q" for q
    using has_axes_defined [OF assms(1), of q] has_axes_undefined [OF assms(1), of q] by auto
  then show ?thesis
    unfolding interpolate_has_axes [OF assms(1,2)] assms(3) by simp
qed

lemma interpolate_alpha1:
  assumes "has_axes state_a" "has_axes state_b" "alpha_of pattern t = 1"
  shows "patina_interpolate_states state_a state_b t pattern = Inr state_b"
proof -
  have "(if q \<in> set PATINA_PARAMETER_NAMES
          then Some (the (state_a q) + 1 * (the (state_b q) - the (state_a q))) else None) = state_b q" for q
    using has_axes_defined [OF assms(2), of q] has_axes_undefined [OF assms(2), of q] by auto
  then show ?thesis
    unfolding interpolate_has_axes [OF assms(1,2)] assms(3) by simp
qed

lemma alpha_vals:
  "alpha_of ''sinusoidal'' 0 = 0" "alpha_of ''sinusoidal'' 1 = 1"
  "alpha_of ''triangular'' 0 = 0" "alpha_of ''triangular'' 1 = 0" "alpha_of ''triangular'' 0.5 = 1"
  "alpha_of ''square'' 0 = 0" "alpha_of ''square'' 1 = 1"
  by (simp_all add: alpha_of_def)

lemma has_axes_point: "has_axes (point e a r i c)"
  by (auto simp: has_axes_def point_def PATINA_PARAMETER_NAMES_def dom_def)

lemma alpha_range: "0 \<le> t \<Longrightarrow> t \<le> 1 \<Longrightarrow> 0 \<le> alpha_of pattern t \<and> alpha_of pattern t \<le> 1"
  unfolding alpha_of_def
  using cos_ge_minus_one [of "pi * t"] cos_le_one [of "pi * t"]
  by auto

lemma point_exposure: "point e a r i c ''exposure_duration'' = Some e"
  by (simp add: point_def)

lemma point_neq: "e \<noteq> e' \<Longrightarrow> point e a r i c \<noteq> point e' a' r' i' c'"
  using point_exposure by (metis option.inject)

text \<open>
  Claim C1 as written fails: the triangular waveform at phase 1 has blend weight
  \<open>2 * (1 - 1) = 0\<close>, so interpolating from \<^verbatim>\<open>fresh_pristine\<close> to \<^verbatim>\<open>deep_rust\<close>
  gives \<^verbatim>\<open>fresh_pristine\<close> back, not \<^verbatim>\<open>deep_rust\<close>.
\<close>

theorem interpolate_phase_one_counterexample:
  "patina_interpolate_states (point 0.00 0.00 0.50 0.00 0.50) (point 0.55 0.70 0.40 0.05 0.55)
     1 ''triangular'' \<noteq> Inr (point 0.55 0.70 0.40 0.05 0.55)"
  by (simp add: interpolate_alpha0 has_axes_point alpha_vals point_neq)

text \<open>
  Claim C2 as written fails: at phase one half the triangular waveform has blend weight
  \<open>2 * 0.5 = 1\<close>, so the result is the second endpoint and not the midpoint.
\<close>

theorem triangular_half_counterexample:
  "patina_interpolate_states (point 0.00 0.00 0.50 0.00 0.50) (point 0.55 0.70 0.40 0.05 0.55)
     0.5 ''triangular''
   \<noteq> Inr (midpoint_coord (point 0.00 0.00 0.50 0.00 0.50) (point 0.55 0.70 0.40 0.05 0.55))"
proof -
  have "midpoint_coord (point 0.00 0.00 0.50 0.00 0.50) (point 0.55 0.70 0.40 0.05 0.55)
          ''exposure_duration'' \<noteq> point 0.55 0.70 0.40 0.05 0.55 ''exposure_duration''"
    by (simp add: midpoint_coord_def point_exposure PATINA_PARAMETER_NAMES_def)
  then have "point 0.55 0.70 0.40 0.05 0.55
      \<noteq> midpoint_coord (point 0.00 0.00 0.50 0.00 0.50) (point 0.55 0.70 0.40 0.05 0.55)"
    by metis
  then show ?thesis
    unfolding interpolate_alpha1 [OF has_axes_point has_axes_point alpha_vals(5)]
    by simp
qed

lemma interpolate_midpoint:
  assumes "has_axes state_a" "has_axes state_b" "alpha_of pattern t = 1 / 2"
  shows "patina_interpolate_states state_a state_b t pattern = Inr (midpoint_coord state_a state_b)"
  unfolding interpolate_has_axes [OF assms(1,2)] assms(3) midpoint_coord_def
  by (simp add: fun_eq_iff field_simps)

lemma in_bounds_iff:
  "in_bounds s \<longleftrightarrow> (\<forall>p \<in> set PATINA_PARAMETER_NAMES. \<exists>v. s p = Some v \<and> 0 \<le> v \<and> v \<le> 1)"
  by (auto simp: in_bounds_def PATINA_PARAMETER_BOUNDS_def split: option.splits)

lemma convex_unit:
  fixes x y al :: real
  assumes "0 \<le> x" "x \<le> 1" "0 \<le> y" "y \<le> 1" "0 \<le> al" "al \<le> 1"
  shows "0 \<le> x + al * (y - x) \<and> x + al * (y - x) \<le> 1"
proof -
  have eq: "x + al * (y - x) = (1 - al) * x + al * y" by (simp add: algebra_simps)
  have "0 \<le> (1 - al) * x + al * y" using assms by simp
  moreover have "(1 - al) * x \<le> (1 - al) * 1" "al * y \<le> al * 1"
    using assms by (simp_all add: mult_left_le)
  then have "(1 - al) * x + al * y \<le> 1" by simp
  ultimately show ?thesis by (simp add: eq)
qed

text \<open>
  Claim C10: for every pattern string, recognised or not, every phase \<open>t\<close> in \<open>[0, 1]\<close> and
  every pair of valid endpoints, the blend weight lies in \<open>[0, 1]\<close>, the interpolation
  returns a coordinate, each axis of it is the convex combination of the endpoints, and
  the coordinate is valid: it defines the five axes with values in \<open>[0, 1]\<close>.
\<close>

theorem interpolate_stays_in_bounds:
  assumes "valid_coord state_a" and "valid_coord state_b" and "0 \<le> t" and "t \<le> 1"
  shows "0 \<le> alpha_of pattern t \<and> alpha_of pattern t \<le> 1
       \<and> (\<exists>s. patina_interpolate_states state_a state_b t pattern = Inr s \<and> valid_coord s
              \<and> (\<forall>p \<in> set PATINA_PARAMETER_NAMES.
                    s p = Some (the (state_a p) + alpha_of pattern t * (the (state_b p) - the (state_a p)))))"
proof -
  let ?al = "alpha_of pattern t"
  let ?s = "\<lambda>q. if q \<in> set PATINA_PARAMETER_NAMES
               then Some (the (state_a q) + ?al * (the (state_b q) - the (state_a q)))
               else None"
  have al: "0 \<le> ?al \<and> ?al \<le> 1" using alpha_range assms(3,4) by simp
  have ha: "has_axes state_a" "has_axes state_b" using assms(1,2) by (simp_all add: valid_coord_def)
  have r: "patina_interpolate_states state_a state_b t pattern = Inr ?s"
    by (rule interpolate_has_axes [OF ha])
  have "has_axes ?s" by (auto simp: has_axes_def dom_def)
  moreover have "in_bounds ?s"
    unfolding in_bounds_iff
  proof
    fix p assume p: "p \<in> set PATINA_PARAMETER_NAMES"
    from assms(1,2) p obtain x y where
      "state_a p = Some x" "0 \<le> x" "x \<le> 1" "state_b p = Some y" "0 \<le> y" "y \<le> 1"
      unfolding valid_coord_def in_bounds_iff by blast
    then show "\<exists>v. ?s p = Some v \<and> 0 \<le> v \<and> v \<le> 1"
      using convex_unit [of x y ?al] al p by simp
  qed
  ultimately have "valid_coord ?s" by (simp add: valid_coord_def)
  with r al show ?thesis by auto
qed

lemma valid_point: "0 \<le> e \<Longrightarrow> e \<le> 1 \<Longrightarrow> 0 \<le> a \<Longrightarrow> a \<le> 1 \<Longrightarrow> 0 \<le> r \<Longrightarrow> r \<le> 1
   \<Longrightarrow> 0 \<le> i \<Longrightarrow> i \<le> 1 \<Longrightarrow> 0 \<le> c \<Longrightarrow> c \<le> 1 \<Longrightarrow> valid_coord (point e a r i c)"
  by (simp add: valid_coord_def has_axes_point in_bounds_iff)
     (simp add: point_def PATINA_PARAMETER_NAMES_def)

text \<open>The bounds theorem at an unrecognised pattern tag and phase one quarter.\<close>

theorem interpolate_stays_in_bounds_witness:
  "valid_coord (point 0.00 0.00 0.50 0.00 0.50) \<and> valid_coord (point 0.55 0.70 0.40 0.05 0.55)
   \<and> (0::real) \<le> 1 / 4 \<and> (1 / 4 ::real) \<le> 1
   \<and> (\<exists>s. patina_interpolate_states (point 0.00 0.00 0.50 0.00 0.50)
             (point 0.55 0.70 0.40 0.05 0.55) (1 / 4) ''wobble'' = Inr s \<and> valid_coord s
          \<and> s ''exposure_duration'' = Some (0.1375))"
proof -
  have va: "valid_coord (point 0.00 0.00 0.50 0.00 0.50)" by (rule valid_point) simp_all
  have vb: "valid_coord (point 0.55 0.70 0.40 0.05 0.55)" by (rule valid_point) simp_all
  have t: "(0::real) \<le> 1 / 4" "(1 / 4 ::real) \<le> 1" by simp_all
  from interpolate_stays_in_bounds [OF va vb t, of "''wobble''"]
  obtain s where s: "patina_interpolate_states (point 0.00 0.00 0.50 0.00 0.50)
             (point 0.55 0.70 0.40 0.05 0.55) (1 / 4) ''wobble'' = Inr s" "valid_coord s"
     "\<forall>p \<in> set PATINA_PARAMETER_NAMES.
        s p = Some (the (point 0.00 0.00 0.50 0.00 0.50 p) + alpha_of ''wobble'' (1 / 4) *
           (the (point 0.55 0.70 0.40 0.05 0.55 p) - the (point 0.00 0.00 0.50 0.00 0.50 p)))"
    by blast
  from s(3) have "s ''exposure_duration'' = Some (0.1375)"
    by (simp add: PATINA_PARAMETER_NAMES_def point_exposure alpha_of_def)
  with s(1,2) va vb t show ?thesis by blast
qed

lemma valid_has_axes: "valid_coord s \<Longrightarrow> has_axes s"
  by (simp add: valid_coord_def)

lemma interpolate_within:
  assumes "has_axes state_a" "has_axes state_b" "alpha_of pattern t = 1"
  shows "\<exists>s. patina_interpolate_states state_a state_b t pattern = Inr s \<and> has_axes s
           \<and> (\<forall>p \<in> set PATINA_PARAMETER_NAMES. \<bar>the (s p) - the (state_b p)\<bar> \<le> 1 / 10 ^ 15)"
  using interpolate_alpha1 [OF assms] assms(2) by simp

lemma dom_if_some: "dom (\<lambda>p. if p \<in> A then Some (f p) else None) = A"
  by (auto simp: dom_def split: if_splits)

lemma interpolate_within_midpoint:
  assumes "has_axes state_a" "has_axes state_b" "alpha_of pattern t = 1 / 2"
  shows "\<exists>s. patina_interpolate_states state_a state_b t pattern = Inr s \<and> has_axes s
           \<and> (\<forall>p \<in> set PATINA_PARAMETER_NAMES.
                 \<bar>the (s p) - (the (state_a p) + the (state_b p)) / 2\<bar> \<le> 1 / 10 ^ 15)"
proof -
  have "has_axes (midpoint_coord state_a state_b)"
    unfolding has_axes_def midpoint_coord_def by (rule dom_if_some)
  then show ?thesis
    using interpolate_midpoint [OF assms] by (simp add: midpoint_coord_def)
qed

text \<open>
  Claim C1, amended: for valid coordinates \<open>a\<close>, \<open>b\<close>, each of the three named waveforms
  returns \<open>a\<close> at phase 0, and the triangular waveform returns \<open>a\<close> at phase 1. At phase 1
  the sinusoidal and the square waveform have blend weight 1: the result defines the five
  axes and on each of them lies within \<open>10\<^sup>-\<^sup>1\<^sup>5\<close> of \<open>b\<close>.
\<close>

theorem interpolate_endpoints:
  assumes "valid_coord state_a" and "valid_coord state_b"
  shows "(pattern \<in> {''sinusoidal'', ''triangular'', ''square''} \<longrightarrow>
            patina_interpolate_states state_a state_b 0 pattern = Inr state_a)
       \<and> patina_interpolate_states state_a state_b 1 ''triangular'' = Inr state_a
       \<and> alpha_of ''sinusoidal'' 1 = 1 \<and> alpha_of ''square'' 1 = 1
       \<and> (\<forall>shape \<in> {''sinusoidal'', ''square''}.
            \<exists>s. patina_interpolate_states state_a state_b 1 shape = Inr s \<and> has_axes s
              \<and> (\<forall>p \<in> set PATINA_PARAMETER_NAMES.
                    \<bar>the (s p) - the (state_b p)\<bar> \<le> 1 / 10 ^ 15))"
proof -
  note h = valid_has_axes [OF assms(1)] valid_has_axes [OF assms(2)]
  have "alpha_of pattern 0 = 0" by (simp add: alpha_of_def)
  then have "patina_interpolate_states state_a state_b 0 pattern = Inr state_a"
    by (rule interpolate_alpha0 [OF h])
  moreover have "patina_interpolate_states state_a state_b 1 ''triangular'' = Inr state_a"
    by (rule interpolate_alpha0 [OF h alpha_vals(4)])
  moreover note alpha_vals(2) alpha_vals(7)
  moreover have "\<forall>shape \<in> {''sinusoidal'', ''square''}.
            \<exists>s. patina_interpolate_states state_a state_b 1 shape = Inr s \<and> has_axes s
              \<and> (\<forall>p \<in> set PATINA_PARAMETER_NAMES.
                    \<bar>the (s p) - the (state_b p)\<bar> \<le> 1 / 10 ^ 15)"
    using interpolate_within [OF h alpha_vals(2)] interpolate_within [OF h alpha_vals(7)]
    by blast
  ultimately show ?thesis by blast
qed

text \<open>The endpoints theorem at \<^verbatim>\<open>fresh_pristine\<close> and \<^verbatim>\<open>deep_rust\<close>.\<close>

theorem interpolate_endpoints_witness:
  "valid_coord (point 0.00 0.00 0.50 0.00 0.50) \<and> valid_coord (point 0.55 0.70 0.40 0.05 0.55)
   \<and> patina_interpolate_states (point 0.00 0.00 0.50 0.00 0.50) (point 0.55 0.70 0.40 0.05 0.55)
        0 ''triangular'' = Inr (point 0.00 0.00 0.50 0.00 0.50)
   \<and> patina_interpolate_states (point 0.00 0.00 0.50 0.00 0.50) (point 0.55 0.70 0.40 0.05 0.55)
        1 ''triangular'' = Inr (point 0.00 0.00 0.50 0.00 0.50)
   \<and> alpha_of ''sinusoidal'' 1 = 1"
proof -
  have va: "valid_coord (point 0.00 0.00 0.50 0.00 0.50)" by (rule valid_point) simp_all
  have vb: "valid_coord (point 0.55 0.70 0.40 0.05 0.55)" by (rule valid_point) simp_all
  show ?thesis
    using interpolate_endpoints [OF va vb, of "''triangular''"] va vb by simp
qed

text \<open>
  Claim C2, amended: for valid coordinates, the triangular waveform has blend weight 1
  at phase 0.5, where the result lies on every axis within \<open>10\<^sup>-\<^sup>1\<^sup>5\<close> of the second endpoint
  \<open>b\<close>; it has blend weight one half at phases 0.25 and 0.75, where the result lies on
  every axis within \<open>10\<^sup>-\<^sup>1\<^sup>5\<close> of the midpoint \<open>(a + b) / 2\<close>.
\<close>

theorem triangular_half_is_peak:
  assumes "valid_coord state_a" and "valid_coord state_b"
  shows "alpha_of ''triangular'' 0.5 = 1
       \<and> (\<exists>s. patina_interpolate_states state_a state_b 0.5 ''triangular'' = Inr s \<and> has_axes s
             \<and> (\<forall>p \<in> set PATINA_PARAMETER_NAMES.
                   \<bar>the (s p) - the (state_b p)\<bar> \<le> 1 / 10 ^ 15))
       \<and> alpha_of ''triangular'' 0.25 = 1 / 2 \<and> alpha_of ''triangular'' 0.75 = 1 / 2
       \<and> (\<forall>t \<in> {0.25, 0.75}.
            \<exists>s. patina_interpolate_states state_a state_b t ''triangular'' = Inr s \<and> has_axes s
              \<and> (\<forall>p \<in> set PATINA_PARAMETER_NAMES.
                    \<bar>the (s p) - (the (state_a p) + the (state_b p)) / 2\<bar> \<le> 1 / 10 ^ 15))"
proof -
  note h = valid_has_axes [OF assms(1)] valid_has_axes [OF assms(2)]
  have q: "alpha_of ''triangular'' 0.25 = 1 / 2" "alpha_of ''triangular'' 0.75 = 1 / 2"
    by (simp_all add: alpha_of_def)
  have "\<forall>t \<in> {0.25, 0.75 :: real}.
            \<exists>s. patina_interpolate_states state_a state_b t ''triangular'' = Inr s \<and> has_axes s
              \<and> (\<forall>p \<in> set PATINA_PARAMETER_NAMES.
                    \<bar>the (s p) - (the (state_a p) + the (state_b p)) / 2\<bar> \<le> 1 / 10 ^ 15)"
    using interpolate_within_midpoint [OF h q(1)] interpolate_within_midpoint [OF h q(2)]
    by blast
  with alpha_vals(5) q interpolate_within [OF h alpha_vals(5)] show ?thesis by blast
qed

text \<open>The peak theorem at \<^verbatim>\<open>fresh_pristine\<close> and \<^verbatim>\<open>deep_rust\<close>.\<close>

theorem triangular_half_is_peak_witness:
  "valid_coord (point 0.00 0.00 0.50 0.00 0.50) \<and> valid_coord (point 0.55 0.70 0.40 0.05 0.55)
   \<and> alpha_of ''triangular'' 0.5 = 1
   \<and> (\<exists>s. patina_interpolate_states (point 0.00 0.00 0.50 0.00 0.50)
             (point 0.55 0.70 0.40 0.05 0.55) 0.5 ''triangular'' = Inr s
          \<and> \<bar>the (s ''exposure_duration'') - 0.55\<bar> \<le> 1 / 10 ^ 15)"
proof -
  have va: "valid_coord (point 0.00 0.00 0.50 0.00 0.50)" by (rule valid_point) simp_all
  have vb: "valid_coord (point 0.55 0.70 0.40 0.05 0.55)" by (rule valid_point) simp_all
  from triangular_half_is_peak [OF va vb] obtain s where
    s: "patina_interpolate_states (point 0.00 0.00 0.50 0.00 0.50)
             (point 0.55 0.70 0.40 0.05 0.55) 0.5 ''triangular'' = Inr s"
    and c: "\<forall>p \<in> set PATINA_PARAMETER_NAMES.
              \<bar>the (s p) - the (point 0.55 0.70 0.40 0.05 0.55 p)\<bar> \<le> 1 / 10 ^ 15"
    and al: "alpha_of ''triangular'' 0.5 = 1"
    by blast
  from c have "\<bar>the (s ''exposure_duration'') - 0.55\<bar> \<le> 1 / 10 ^ 15"
    by (simp add: PATINA_PARAMETER_NAMES_def point_exposure)
  with s al va vb show ?thesis by blast
qed

section \<open>Verification: distance and nearest neighbour\<close>

lemma sum_sq_diff_total:
  "\<forall>p \<in> set ps. a p \<noteq> None \<and> b p \<noteq> None \<Longrightarrow>
   sum_sq_diff a b ps acc = Inr (acc + sq_sum a b ps)"
proof (induction ps arbitrary: acc)
  case Nil
  then show ?case by (simp add: sq_sum_def)
next
  case (Cons p ps)
  then obtain x y where xy: "a p = Some x" "b p = Some y" by auto
  from Cons.prems have rest: "\<forall>p \<in> set ps. a p \<noteq> None \<and> b p \<noteq> None" by simp
  show ?case
    using Cons.IH [OF rest] by (simp add: xy sq_sum_def)
qed

lemma sq_sum_nonneg: "0 \<le> sq_sum a b ps"
  unfolding sq_sum_def by (rule sum_list_nonneg) auto

lemma sq_sum_zero_iff: "sq_sum a b ps = 0 \<longleftrightarrow> (\<forall>p \<in> set ps. the (a p) = the (b p))"
  unfolding sq_sum_def by (subst sum_list_nonneg_eq_0_iff) auto

lemma distance_has_axes:
  assumes "has_axes a" "has_axes b"
  shows "patina_euclidean_distance a b = Inr (sqrt (sq_sum a b PATINA_PARAMETER_NAMES))"
proof -
  have "\<forall>p \<in> set PATINA_PARAMETER_NAMES. a p \<noteq> None \<and> b p \<noteq> None"
    using assms by (auto simp: has_axes_def)
  then show ?thesis
    by (simp add: patina_euclidean_distance_def sum_sq_diff_total)
qed

lemma has_axes_eqI:
  assumes "has_axes a" "has_axes b" "\<forall>p \<in> set PATINA_PARAMETER_NAMES. the (a p) = the (b p)"
  shows "a = b"
proof
  fix p
  show "a p = b p"
  proof (cases "p \<in> set PATINA_PARAMETER_NAMES")
    case True
    from has_axes_defined [OF assms(1) True] has_axes_defined [OF assms(2) True]
    obtain x y where "a p = Some x" "b p = Some y" by auto
    with assms(3) True show ?thesis by auto
  next
    case False
    then show ?thesis
      using has_axes_undefined [OF assms(1)] has_axes_undefined [OF assms(2)] by simp
  qed
qed

lemma distance_zero_iff:
  assumes "has_axes a" "has_axes b"
  shows "patina_euclidean_distance a b = Inr 0 \<longleftrightarrow> a = b"
proof
  assume "patina_euclidean_distance a b = Inr 0"
  then have "sq_sum a b PATINA_PARAMETER_NAMES = 0"
    by (simp add: distance_has_axes [OF assms])
  then show "a = b"
    using has_axes_eqI [OF assms] by (simp add: sq_sum_zero_iff)
next
  assume "a = b"
  then show "patina_euclidean_distance a b = Inr 0"
    using assms by (simp add: distance_has_axes sq_sum_zero_iff [THEN iffD2])
qed

lemma nearest_scan_append:
  "nearest_scan distance state (xs @ ys) best =
     (case nearest_scan distance state xs best of
        Inl e \<Rightarrow> Inl e
      | Inr b \<Rightarrow> nearest_scan distance state ys b)"
  by (induction distance state xs best rule: nearest_scan.induct) (auto split: sum.splits)

lemma distance_like_prefix:
  "distance_like distance state (xs @ ys) \<Longrightarrow> distance_like distance state xs"
  unfolding distance_like_def by (metis Un_iff image_Un set_append)

lemma nearest_scan_ok:
  assumes dl: "distance_like distance state catalog"
      and ne: "catalog \<noteq> []"
      and dis: "distinct (map snd catalog)"
  shows "nearest_ok distance state catalog (nearest_scan distance state catalog None)"
  using dl ne dis
proof (induction catalog rule: rev_induct)
  case Nil
  then show ?case by simp
next
  case (snoc x xs)
  obtain k c where x: "x = (k, c)" by (cases x)
  have cin: "c \<in> snd ` set (xs @ [x])" by (simp add: x)
  with snoc.prems(1) obtain dc where dist_c: "distance state c = Inr dc" and dc0: "0 \<le> dc"
    and dcz: "c = state \<longrightarrow> dc = 0"
    unfolding distance_like_def by blast
  have dl_xs: "distance_like distance state xs"
    using snoc.prems(1) by (rule distance_like_prefix)
  show ?case
  proof (cases "xs = []")
    case True
    have "nearest_scan distance state [(k, c)] None = Inr (Some (k, dc))"
      by (simp add: dist_c)
    then show ?thesis
      unfolding nearest_ok_def True x
      using dist_c dc0 dcz by (intro exI [of _ k] exI [of _ dc] exI [of _ 0]) simp
  next
    case False
    have "nearest_ok distance state xs (nearest_scan distance state xs None)"
      using snoc.IH dl_xs snoc.prems(3) False by simp
    then obtain sid d i where r: "nearest_scan distance state xs None = Inr (Some (sid, d))"
      and i: "i < length xs" "fst (xs ! i) = sid"
      and di: "distance state (snd (xs ! i)) = Inr d" "0 \<le> d"
      and mn: "\<forall>j < length xs. \<exists>dj. distance state (snd (xs ! j)) = Inr dj
                  \<and> d \<le> dj \<and> (j < i \<longrightarrow> d < dj)"
      and co: "\<forall>j < length xs. snd (xs ! j) = state \<longrightarrow> j = i \<and> d = 0"
      unfolding nearest_ok_def by blast
    have cnotin: "c \<notin> snd ` set xs" using snoc.prems(3) x by simp
    have step: "nearest_scan distance state (xs @ [x]) None =
        Inr (if dc < d then Some (k, dc) else Some (sid, d))"
      by (simp add: nearest_scan_append r x dist_c)
    show ?thesis
    proof (cases "dc < d")
      case True
      have no_co: "\<forall>j < length xs. snd (xs ! j) \<noteq> state"
        using co True dc0 by auto
      have "\<forall>j < length (xs @ [x]).
              \<exists>dj. distance state (snd ((xs @ [x]) ! j)) = Inr dj
                  \<and> dc \<le> dj \<and> (j < length xs \<longrightarrow> dc < dj)"
      proof (intro allI impI)
        fix j assume "j < length (xs @ [x])"
        then consider "j < length xs" | "j = length xs" by fastforce
        then show "\<exists>dj. distance state (snd ((xs @ [x]) ! j)) = Inr dj
                  \<and> dc \<le> dj \<and> (j < length xs \<longrightarrow> dc < dj)"
        proof cases
          case 1
          with mn obtain dj where "distance state (snd (xs ! j)) = Inr dj" "d \<le> dj"
            by blast
          with 1 True show ?thesis by (simp add: nth_append)
        next
          case 2
          then show ?thesis by (simp add: x dist_c)
        qed
      qed
      moreover have "\<forall>j < length (xs @ [x]). snd ((xs @ [x]) ! j) = state \<longrightarrow> j = length xs \<and> dc = 0"
        using no_co dcz by (auto simp: nth_append x less_Suc_eq)
      ultimately show ?thesis
        unfolding nearest_ok_def step
        using True dist_c dc0
        by (intro exI [of _ k] exI [of _ dc] exI [of _ "length xs"]) (simp add: x)
    next
      case False
      have "\<forall>j < length (xs @ [x]).
              \<exists>dj. distance state (snd ((xs @ [x]) ! j)) = Inr dj
                  \<and> d \<le> dj \<and> (j < i \<longrightarrow> d < dj)"
      proof (intro allI impI)
        fix j assume "j < length (xs @ [x])"
        then consider "j < length xs" | "j = length xs" by fastforce
        then show "\<exists>dj. distance state (snd ((xs @ [x]) ! j)) = Inr dj
                  \<and> d \<le> dj \<and> (j < i \<longrightarrow> d < dj)"
        proof cases
          case 1
          with mn show ?thesis by (simp add: nth_append)
        next
          case 2
          with False i(1) show ?thesis by (simp add: x dist_c)
        qed
      qed
      moreover have "\<forall>j < length (xs @ [x]). snd ((xs @ [x]) ! j) = state \<longrightarrow> j = i \<and> d = 0"
      proof (intro allI impI)
        fix j assume j: "j < length (xs @ [x])" and e: "snd ((xs @ [x]) ! j) = state"
        then consider "j < length xs" | "j = length xs" by fastforce
        then show "j = i \<and> d = 0"
        proof cases
          case 1
          with co e show ?thesis by (simp add: nth_append)
        next
          case 2
          with e have cs: "c = state" by (simp add: x)
          with dcz have "dc = 0" by simp
          with False di(2) have d0: "d = 0" by simp
          have mem: "snd (xs ! i) \<in> snd ` set (xs @ [x])" using i(1) by simp
          have sin: "state \<in> snd ` set (xs @ [x])" using cin cs by simp
          from snoc.prems(1) mem obtain d' where
            "distance state (snd (xs ! i)) = Inr d'"
            "snd (xs ! i) \<noteq> state \<and> state \<in> snd ` set (xs @ [x]) \<longrightarrow> 0 < d'"
            unfolding distance_like_def by blast
          with di(1) d0 sin have "snd (xs ! i) = state" by auto
          with cs cnotin i(1) show ?thesis by (metis image_eqI nth_mem)
        qed
      qed
      ultimately show ?thesis
        unfolding nearest_ok_def step
        using False i di
        by (intro exI [of _ sid] exI [of _ d] exI [of _ i]) (simp add: nth_append)
    qed
  qed
qed

lemma distance_like_exact:
  assumes st: "has_axes state" and cat: "\<forall>c \<in> set catalog. has_axes (snd c)"
  shows "distance_like patina_euclidean_distance state catalog"
  unfolding distance_like_def
proof
  fix c assume "c \<in> snd ` set catalog"
  with cat have hc: "has_axes c" by auto
  define dc where "dc = sqrt (sq_sum state c PATINA_PARAMETER_NAMES)"
  have dist_c: "patina_euclidean_distance state c = Inr dc"
    by (simp add: dc_def distance_has_axes [OF st hc])
  have dc0: "0 \<le> dc" by (simp add: dc_def sq_sum_nonneg)
  have dcz: "dc = 0 \<longleftrightarrow> c = state"
    using distance_zero_iff [OF st hc] dist_c by auto
  from dc0 dcz have "c \<noteq> state \<longrightarrow> 0 < dc" by auto
  with dist_c dc0 dcz
  show "\<exists>d. patina_euclidean_distance state c = Inr d \<and> 0 \<le> d \<and> (c = state \<longrightarrow> d = 0) \<and>
            (c \<noteq> state \<and> state \<in> snd ` set catalog \<longrightarrow> 0 < d)"
    by auto
qed

lemma nearest_exact_ok:
  assumes "has_axes state" "\<forall>c \<in> set catalog. has_axes (snd c)" "catalog \<noteq> []"
    "distinct (map snd catalog)"
  shows "nearest_ok patina_euclidean_distance state catalog
           (nearest_scan patina_euclidean_distance state catalog None)"
  by (rule nearest_scan_ok [OF distance_like_exact [OF assms(1,2)] assms(3,4)])

lemma canonical_has_axes: "\<forall>c \<in> set PATINA_CANONICAL_STATES. has_axes (snd c)"
  by (simp add: PATINA_CANONICAL_STATES_def has_axes_point)

lemma visual_has_axes: "\<forall>c \<in> set PATINA_VISUAL_TYPES. has_axes (snd c)"
  by (simp add: PATINA_VISUAL_TYPES_def has_axes_point)

lemma canonical_distinct: "distinct (map snd PATINA_CANONICAL_STATES)"
  by (simp add: PATINA_CANONICAL_STATES_def point_neq)

lemma visual_distinct: "distinct (map snd PATINA_VISUAL_TYPES)"
  by (simp add: PATINA_VISUAL_TYPES_def point_neq)

text \<open>
  Claim C3: let \<open>distance\<close> be the distance computation the two classifiers call, with the
  properties of a distance at the point and the two catalogues. Then the scan over the
  canonical states and the scan over the visual types each return an identifier of the
  catalogue and a non-negative distance, which is the distance to that entry and the
  least of all; every entry before the winner is strictly farther, so among entries at
  the same computed distance the first in iteration order wins; and when the point
  coincides with a catalogue entry, that entry is returned at distance 0.
\<close>

theorem nearest_classification:
  assumes "distance_like distance state PATINA_CANONICAL_STATES"
      and "distance_like distance state PATINA_VISUAL_TYPES"
  shows "nearest_ok distance state PATINA_CANONICAL_STATES
           (nearest_scan distance state PATINA_CANONICAL_STATES None)
       \<and> nearest_ok distance state PATINA_VISUAL_TYPES
           (nearest_scan distance state PATINA_VISUAL_TYPES None)"
proof
  have "PATINA_CANONICAL_STATES \<noteq> []" by (simp add: PATINA_CANONICAL_STATES_def)
  then show "nearest_ok distance state PATINA_CANONICAL_STATES
           (nearest_scan distance state PATINA_CANONICAL_STATES None)"
    by (intro nearest_scan_ok assms canonical_distinct)
next
  have "PATINA_VISUAL_TYPES \<noteq> []" by (simp add: PATINA_VISUAL_TYPES_def)
  then show "nearest_ok distance state PATINA_VISUAL_TYPES
           (nearest_scan distance state PATINA_VISUAL_TYPES None)"
    by (intro nearest_scan_ok assms visual_distinct)
qed

text \<open>
  The classification theorem at the coordinate of \<^verbatim>\<open>fresh_pristine\<close>, with the exact
  distance as the distance computation.
\<close>

theorem nearest_classification_witness:
  "distance_like patina_euclidean_distance (point 0.00 0.00 0.50 0.00 0.50)
     PATINA_CANONICAL_STATES
   \<and> distance_like patina_euclidean_distance (point 0.00 0.00 0.50 0.00 0.50) PATINA_VISUAL_TYPES
   \<and> patina_nearest_canonical (point 0.00 0.00 0.50 0.00 0.50) = Inr (Some (''fresh_pristine'', 0))
   \<and> nearest_ok patina_euclidean_distance (point 0.00 0.00 0.50 0.00 0.50) PATINA_VISUAL_TYPES
        (patina_nearest_visual_type (point 0.00 0.00 0.50 0.00 0.50))"
proof -
  let ?p = "point 0.00 0.00 0.50 0.00 0.50"
  have h: "has_axes ?p" by (rule has_axes_point)
  have dc: "distance_like patina_euclidean_distance ?p PATINA_CANONICAL_STATES"
    by (rule distance_like_exact [OF h canonical_has_axes])
  have dv: "distance_like patina_euclidean_distance ?p PATINA_VISUAL_TYPES"
    by (rule distance_like_exact [OF h visual_has_axes])
  note ok = nearest_classification [OF dc dv]
  from ok obtain sid d i where r: "patina_nearest_canonical ?p = Inr (Some (sid, d))"
    and i: "fst (PATINA_CANONICAL_STATES ! i) = sid"
    and co: "\<forall>j < length PATINA_CANONICAL_STATES.
               snd (PATINA_CANONICAL_STATES ! j) = ?p \<longrightarrow> j = i \<and> d = 0"
    unfolding nearest_ok_def patina_nearest_canonical_def by blast
  have "0 < length PATINA_CANONICAL_STATES" "snd (PATINA_CANONICAL_STATES ! 0) = ?p"
    by (simp_all add: PATINA_CANONICAL_STATES_def)
  with co have "0 = i \<and> d = 0" by blast
  with i have "sid = ''fresh_pristine''" "d = 0"
    by (auto simp: PATINA_CANONICAL_STATES_def)
  with r dc dv ok show ?thesis by (simp add: patina_nearest_visual_type_def)
qed

section \<open>Verification: sequence generation\<close>

lemma for_each_all_ok:
  "\<forall>x \<in> set xs. \<exists>y. body x = Inr y \<Longrightarrow> for_each body xs = Inr (map (\<lambda>x. projr (body x)) xs)"
  by (induction xs) auto

lemma for_each_map_sum:
  "\<forall>x \<in> set xs. body2 x = map_sum id f (body1 x) \<Longrightarrow>
   for_each body2 xs = map_sum id (map f) (for_each body1 xs)"
  by (induction xs) (auto split: sum.splits)

lemma py_range_set: "set (py_range n) = {k. 0 \<le> k \<and> k < n}"
proof -
  have "k \<in> int ` {0..<nat n} \<longleftrightarrow> 0 \<le> k \<and> k < n" for k
  proof
    assume "k \<in> int ` {0..<nat n}"
    then show "0 \<le> k \<and> k < n" by auto
  next
    assume "0 \<le> k \<and> k < n"
    then have "nat k \<in> {0..<nat n}" "k = int (nat k)" by auto
    then show "k \<in> int ` {0..<nat n}" by blast
  qed
  then show ?thesis by (auto simp: py_range_def)
qed

lemma py_range_length: "length (py_range n) = nat n"
  by (simp add: py_range_def)


lemma py_range_nonpos: "n \<le> 0 \<Longrightarrow> py_range n = []"
  by (simp add: py_range_def)

lemma interpolate_result_has_axes:
  assumes "has_axes state_a" "has_axes state_b"
  shows "\<exists>st. patina_interpolate_states state_a state_b t pattern = Inr st \<and> has_axes st"
  unfolding interpolate_has_axes [OF assms]
  by (auto simp: has_axes_def dom_def)

lemma nearest_visual_type_total:
  assumes "has_axes state"
  shows "\<exists>v d. patina_nearest_visual_type state = Inr (Some (v, d))"
proof -
  have "PATINA_VISUAL_TYPES \<noteq> []" by (simp add: PATINA_VISUAL_TYPES_def)
  then have "nearest_ok patina_euclidean_distance state PATINA_VISUAL_TYPES
               (patina_nearest_visual_type state)"
    unfolding patina_nearest_visual_type_def
    by (intro nearest_exact_ok assms visual_has_axes visual_distinct)
  then show ?thesis unfolding nearest_ok_def by blast
qed

lemma canonical_get:
  assumes "sid \<in> fst ` set PATINA_CANONICAL_STATES"
  shows "\<exists>c. dict_get PATINA_CANONICAL_STATES sid = Inr c \<and> has_axes c"
proof -
  from assms obtain c where c: "map_of PATINA_CANONICAL_STATES sid = Some c"
    by (metis map_of_eq_None_iff not_None_eq)
  then have "(sid, c) \<in> set PATINA_CANONICAL_STATES" by (rule map_of_SomeD)
  then have "has_axes c" using canonical_has_axes by auto
  with c show ?thesis by (simp add: dict_get_def)
qed

lemma preset_sample_ok:
  assumes "has_axes state_a" "has_axes state_b" "period \<noteq> 0"
  shows "\<exists>st v d.
           patina_interpolate_states state_a state_b (real_of_int step / real_of_int period) pattern = Inr st
         \<and> patina_nearest_visual_type st = Inr (Some (v, d))
         \<and> preset_sample state_a state_b pattern period step =
             Inr (JObj [(''step'', JInt step),
                        (''phase'', JNum (round4 (real_of_int step / real_of_int period))),
                        (''state'', rounded_state st),
                        (''nearest_visual_type'', JStr v),
                        (''visual_distance'', JNum (round4 d))])"
proof -
  from interpolate_result_has_axes [OF assms(1,2)] obtain st where
    st: "patina_interpolate_states state_a state_b (real_of_int step / real_of_int period) pattern = Inr st"
    and h: "has_axes st" by blast
  from nearest_visual_type_total [OF h] obtain v d where
    b: "patina_nearest_visual_type st = Inr (Some (v, d))" by blast
  show ?thesis
    using assms(3) st b
    by (simp add: preset_sample_def best_id_json_def best_dist_json_def)
qed

lemma rhythmic_sample_ok:
  assumes "has_axes state_a" "has_axes state_b" "steps_per_cycle \<noteq> 0"
  shows "\<exists>st v d.
           patina_interpolate_states state_a state_b
             (frac (real_of_int step / real_of_int steps_per_cycle + phase_offset)) pattern = Inr st
         \<and> patina_nearest_visual_type st = Inr (Some (v, d))
         \<and> rhythmic_sample state_a state_b pattern steps_per_cycle phase_offset step =
             Inr (JObj [(''step'', JInt step),
                        (''cycle'', JInt (step div steps_per_cycle)),
                        (''phase'', JNum (round4
                            (frac (real_of_int step / real_of_int steps_per_cycle + phase_offset)))),
                        (''state'', rounded_state st),
                        (''nearest_visual_type'', JStr v),
                        (''visual_distance'', JNum (round4 d))])"
proof -
  let ?t = "frac (real_of_int step / real_of_int steps_per_cycle + phase_offset)"
  from interpolate_result_has_axes [OF assms(1,2)] obtain st where
    st: "patina_interpolate_states state_a state_b ?t pattern = Inr st"
    and h: "has_axes st" by blast
  from nearest_visual_type_total [OF h] obtain v d where
    b: "patina_nearest_visual_type st = Inr (Some (v, d))" by blast
  show ?thesis
    using assms(3) st b
    by (simp add: rhythmic_sample_def best_id_json_def best_dist_json_def Let_def)
qed

lemma rhythmic_sample_as_preset:
  assumes "0 \<le> step" "step < period"
  shows "preset_sample state_a state_b pattern period step =
           map_sum id (without_key ''cycle'') (rhythmic_sample state_a state_b pattern period 0 step)"
proof -
  have p: "period \<noteq> 0" using assms by simp
  have "0 \<le> real_of_int step / real_of_int period" "real_of_int step / real_of_int period < 1"
    using assms by simp_all
  then have "frac (real_of_int step / real_of_int period) = real_of_int step / real_of_int period"
    by (simp add: frac_eq)
  then show ?thesis
    using p
    by (simp add: preset_sample_def rhythmic_sample_def without_key_def Let_def split: sum.splits)
qed

lemma rhythmic_sample_cycle0:
  assumes "0 \<le> step" "step < period"
      and "rhythmic_sample state_a state_b pattern period off step = Inr j"
  shows "field ''cycle'' j = Some (JInt 0)"
  using assms
  by (auto simp: rhythmic_sample_def field_def Let_def split: sum.splits if_splits)

lemma presets_wf:
  "\<forall>(name, cfg) \<in> set PATINA_RHYTHMIC_PRESETS.
     map_of PATINA_RHYTHMIC_PRESETS name = Some cfg
   \<and> cfg_state_a cfg \<in> fst ` set PATINA_CANONICAL_STATES
   \<and> cfg_state_b cfg \<in> fst ` set PATINA_CANONICAL_STATES
   \<and> 0 < cfg_period cfg"
  by (simp add: PATINA_RHYTHMIC_PRESETS_def PATINA_CANONICAL_STATES_def)

lemma apply_preset_ok:
  assumes "(name, cfg) \<in> set PATINA_RHYTHMIC_PRESETS"
  shows "\<exists>a b. dict_get PATINA_CANONICAL_STATES (cfg_state_a cfg) = Inr a \<and> has_axes a
             \<and> dict_get PATINA_CANONICAL_STATES (cfg_state_b cfg) = Inr b \<and> has_axes b
             \<and> apply_patina_rhythmic_preset name =
                 Inr (JObj
                   [(''preset'', JStr name),
                    (''period'', JInt (cfg_period cfg)),
                    (''pattern'', JStr (cfg_pattern cfg)),
                    (''state_a'', JStr (cfg_state_a cfg)),
                    (''state_b'', JStr (cfg_state_b cfg)),
                    (''sequence'', JList (map (\<lambda>step. projr (preset_sample a b (cfg_pattern cfg)
                                                  (cfg_period cfg) step))
                                            (py_range (cfg_period cfg)))),
                    (''total_steps'', JInt (cfg_period cfg))])"
proof -
  from presets_wf assms have m: "map_of PATINA_RHYTHMIC_PRESETS name = Some cfg"
    and ka: "cfg_state_a cfg \<in> fst ` set PATINA_CANONICAL_STATES"
    and kb: "cfg_state_b cfg \<in> fst ` set PATINA_CANONICAL_STATES"
    and p: "0 < cfg_period cfg" by auto
  from canonical_get [OF ka] obtain a where
    a: "dict_get PATINA_CANONICAL_STATES (cfg_state_a cfg) = Inr a" "has_axes a" by blast
  from canonical_get [OF kb] obtain b where
    b: "dict_get PATINA_CANONICAL_STATES (cfg_state_b cfg) = Inr b" "has_axes b" by blast
  have "\<forall>step \<in> set (py_range (cfg_period cfg)).
          \<exists>y. preset_sample a b (cfg_pattern cfg) (cfg_period cfg) step = Inr y"
    using preset_sample_ok [OF a(2) b(2), of "cfg_period cfg"] p by fastforce
  then have f: "for_each (preset_sample a b (cfg_pattern cfg) (cfg_period cfg))
                  (py_range (cfg_period cfg)) =
                Inr (map (\<lambda>step. projr (preset_sample a b (cfg_pattern cfg) (cfg_period cfg) step))
                       (py_range (cfg_period cfg)))"
    by (rule for_each_all_ok)
  have "apply_patina_rhythmic_preset name =
          Inr (JObj
                   [(''preset'', JStr name),
                    (''period'', JInt (cfg_period cfg)),
                    (''pattern'', JStr (cfg_pattern cfg)),
                    (''state_a'', JStr (cfg_state_a cfg)),
                    (''state_b'', JStr (cfg_state_b cfg)),
                    (''sequence'', JList (map (\<lambda>step. projr (preset_sample a b (cfg_pattern cfg)
                                                  (cfg_period cfg) step))
                                            (py_range (cfg_period cfg)))),
                    (''total_steps'', JInt (cfg_period cfg))])"
    using p by (simp add: apply_patina_rhythmic_preset_def m a(1) b(1) f py_range_length)
  with a b show ?thesis by blast
qed

lemma generate_ok:
  assumes ka: "state_a_id \<in> fst ` set PATINA_CANONICAL_STATES"
      and kb: "state_b_id \<in> fst ` set PATINA_CANONICAL_STATES"
  shows "\<exists>a b. dict_get PATINA_CANONICAL_STATES state_a_id = Inr a \<and> has_axes a
             \<and> dict_get PATINA_CANONICAL_STATES state_b_id = Inr b \<and> has_axes b
             \<and> generate_patina_rhythmic_sequence state_a_id state_b_id pattern num_cycles
                  steps_per_cycle phase_offset =
                 Inr (JObj
                   [(''state_a'', JStr state_a_id),
                    (''state_b'', JStr state_b_id),
                    (''pattern'', JStr pattern),
                    (''num_cycles'', JInt num_cycles),
                    (''steps_per_cycle'', JInt steps_per_cycle),
                    (''phase_offset'', JNum phase_offset),
                    (''total_steps'', JInt (num_cycles * steps_per_cycle)),
                    (''sequence'', JList (map (\<lambda>step. projr (rhythmic_sample a b pattern
                                                  steps_per_cycle phase_offset step))
                                            (py_range (num_cycles * steps_per_cycle))))])"
proof -
  from canonical_get [OF ka] obtain a where
    a: "dict_get PATINA_CANONICAL_STATES state_a_id = Inr a" "has_axes a" by blast
  from canonical_get [OF kb] obtain b where
    b: "dict_get PATINA_CANONICAL_STATES state_b_id = Inr b" "has_axes b" by blast
  have "\<forall>step \<in> set (py_range (num_cycles * steps_per_cycle)).
          \<exists>y. rhythmic_sample a b pattern steps_per_cycle phase_offset step = Inr y"
  proof
    fix step assume "step \<in> set (py_range (num_cycles * steps_per_cycle))"
    then have "0 < num_cycles * steps_per_cycle" by (auto simp: py_range_set)
    then have "steps_per_cycle \<noteq> 0" by auto
    from rhythmic_sample_ok [OF a(2) b(2) this]
    show "\<exists>y. rhythmic_sample a b pattern steps_per_cycle phase_offset step = Inr y" by blast
  qed
  then have f: "for_each (rhythmic_sample a b pattern steps_per_cycle phase_offset)
                  (py_range (num_cycles * steps_per_cycle)) =
                Inr (map (\<lambda>step. projr (rhythmic_sample a b pattern steps_per_cycle phase_offset step))
                       (py_range (num_cycles * steps_per_cycle)))"
    by (rule for_each_all_ok)
  show ?thesis
    using ka kb a b
    by (simp add: generate_patina_rhythmic_sequence_def f Let_def)
qed

lemma sequence_of_obj:
  "map_of fs ''sequence'' = Some (JList samples) \<Longrightarrow> sequence_of (Inr (JObj fs)) = samples"
  by (simp add: sequence_of_def field_def)

text \<open>
  Claim C5 as written fails: a cycle count of 0 is not rejected. The call returns the
  ordinary result object, without an \<^verbatim>\<open>"error"\<close> key and with an empty sequence.
\<close>

theorem counts_not_validated_counterexample:
  "\<not> is_error_result
       (generate_patina_rhythmic_sequence ''fresh_pristine'' ''deep_rust'' ''sinusoidal'' 0 20 0)
   \<and> sequence_of
       (generate_patina_rhythmic_sequence ''fresh_pristine'' ''deep_rust'' ''sinusoidal'' 0 20 0) = []"
proof -
  have k: "''fresh_pristine'' \<in> fst ` set PATINA_CANONICAL_STATES"
          "''deep_rust'' \<in> fst ` set PATINA_CANONICAL_STATES"
    by (simp_all add: PATINA_CANONICAL_STATES_def)
  from generate_ok [OF k, of "''sinusoidal''" 0 20 0]
  show ?thesis
    by (auto simp: is_error_result_def sequence_of_def field_def py_range_def)
qed

text \<open>
  Claim C5, amended: the cycle count and the per-cycle sample count are not validated.
  Whenever both state identifiers are canonical, the call returns the ordinary result
  object and raises nothing; \<^verbatim>\<open>total_steps\<close> is the product of the two counts, the
  sequence has that many samples when the product is positive, and is empty otherwise.
\<close>

theorem counts_not_validated:
  assumes "state_a_id \<in> fst ` set PATINA_CANONICAL_STATES"
      and "state_b_id \<in> fst ` set PATINA_CANONICAL_STATES"
  shows "\<not> is_error_result
            (generate_patina_rhythmic_sequence state_a_id state_b_id pattern num_cycles
               steps_per_cycle phase_offset)
       \<and> (\<exists>sequence.
            generate_patina_rhythmic_sequence state_a_id state_b_id pattern num_cycles
               steps_per_cycle phase_offset =
              Inr (JObj
                [(''state_a'', JStr state_a_id),
                 (''state_b'', JStr state_b_id),
                 (''pattern'', JStr pattern),
                 (''num_cycles'', JInt num_cycles),
                 (''steps_per_cycle'', JInt steps_per_cycle),
                 (''phase_offset'', JNum phase_offset),
                 (''total_steps'', JInt (num_cycles * steps_per_cycle)),
                 (''sequence'', JList sequence)])
          \<and> length sequence = nat (num_cycles * steps_per_cycle)
          \<and> (num_cycles * steps_per_cycle \<le> 0 \<longrightarrow> sequence = []))"
proof -
  from generate_ok [OF assms, of pattern num_cycles steps_per_cycle phase_offset]
  obtain a b where r: "generate_patina_rhythmic_sequence state_a_id state_b_id pattern num_cycles
                  steps_per_cycle phase_offset =
                 Inr (JObj
                   [(''state_a'', JStr state_a_id),
                    (''state_b'', JStr state_b_id),
                    (''pattern'', JStr pattern),
                    (''num_cycles'', JInt num_cycles),
                    (''steps_per_cycle'', JInt steps_per_cycle),
                    (''phase_offset'', JNum phase_offset),
                    (''total_steps'', JInt (num_cycles * steps_per_cycle)),
                    (''sequence'', JList (map (\<lambda>step. projr (rhythmic_sample a b pattern
                                                  steps_per_cycle phase_offset step))
                                            (py_range (num_cycles * steps_per_cycle))))])"
    by blast
  have "\<not> is_error_result
            (generate_patina_rhythmic_sequence state_a_id state_b_id pattern num_cycles
               steps_per_cycle phase_offset)"
    unfolding r by (simp add: is_error_result_def)
  then show ?thesis
    unfolding r by (simp add: py_range_length py_range_nonpos)
qed

text \<open>The amended C5 at a negative cycle count.\<close>

theorem counts_not_validated_witness:
  "''gentle_patina'' \<in> fst ` set PATINA_CANONICAL_STATES
   \<and> ''total_ruin'' \<in> fst ` set PATINA_CANONICAL_STATES
   \<and> generate_patina_rhythmic_sequence ''gentle_patina'' ''total_ruin'' ''square'' (- 2) 5 0 =
       Inr (JObj
         [(''state_a'', JStr ''gentle_patina''),
          (''state_b'', JStr ''total_ruin''),
          (''pattern'', JStr ''square''),
          (''num_cycles'', JInt (- 2)),
          (''steps_per_cycle'', JInt 5),
          (''phase_offset'', JNum 0),
          (''total_steps'', JInt (- 10)),
          (''sequence'', JList [])])"
proof -
  have k: "''gentle_patina'' \<in> fst ` set PATINA_CANONICAL_STATES"
          "''total_ruin'' \<in> fst ` set PATINA_CANONICAL_STATES"
    by (simp_all add: PATINA_CANONICAL_STATES_def)
  from counts_not_validated [OF k, of "''square''" "- 2" 5 0] k
  show ?thesis by auto
qed

text \<open>
  Claim C7: for every preset, the custom oscillation with one cycle, as many samples per
  cycle as the preset's period, phase offset 0, and the preset's endpoints and waveform
  returns a sequence of the same length whose samples, once the \<^verbatim>\<open>"cycle"\<close> entry (always
  0) is dropped, are the samples of the preset replay: same step, phase, coordinate,
  visual type and distance. Neither call raises or reports an error.
\<close>

theorem custom_agrees_with_preset:
  "\<forall>(name, cfg) \<in> set PATINA_RHYTHMIC_PRESETS.
     (\<exists>j. apply_patina_rhythmic_preset name = Inr j)
   \<and> \<not> is_error_result (apply_patina_rhythmic_preset name)
   \<and> (\<exists>j. generate_patina_rhythmic_sequence (cfg_state_a cfg) (cfg_state_b cfg) (cfg_pattern cfg)
             1 (cfg_period cfg) 0 = Inr j)
   \<and> \<not> is_error_result
         (generate_patina_rhythmic_sequence (cfg_state_a cfg) (cfg_state_b cfg) (cfg_pattern cfg)
            1 (cfg_period cfg) 0)
   \<and> length (sequence_of (apply_patina_rhythmic_preset name)) = nat (cfg_period cfg)
   \<and> sequence_of (apply_patina_rhythmic_preset name) =
       map (without_key ''cycle'')
         (sequence_of
            (generate_patina_rhythmic_sequence (cfg_state_a cfg) (cfg_state_b cfg) (cfg_pattern cfg)
               1 (cfg_period cfg) 0))
   \<and> (\<forall>j \<in> set (sequence_of
                   (generate_patina_rhythmic_sequence (cfg_state_a cfg) (cfg_state_b cfg)
                      (cfg_pattern cfg) 1 (cfg_period cfg) 0)).
         field ''cycle'' j = Some (JInt 0))"
proof (intro ballI, clarify)
  fix name cfg assume mem: "(name, cfg) \<in> set PATINA_RHYTHMIC_PRESETS"
  let ?P = "cfg_period cfg" and ?pat = "cfg_pattern cfg"
  let ?custom = "generate_patina_rhythmic_sequence (cfg_state_a cfg) (cfg_state_b cfg) ?pat 1 ?P 0"
  from presets_wf mem have ka: "cfg_state_a cfg \<in> fst ` set PATINA_CANONICAL_STATES"
    and kb: "cfg_state_b cfg \<in> fst ` set PATINA_CANONICAL_STATES"
    and p: "0 < ?P" by auto
  from apply_preset_ok [OF mem] obtain a b where
        a: "dict_get PATINA_CANONICAL_STATES (cfg_state_a cfg) = Inr a" "has_axes a"
    and b: "dict_get PATINA_CANONICAL_STATES (cfg_state_b cfg) = Inr b" "has_axes b"
    and r1: "apply_patina_rhythmic_preset name =
                 Inr (JObj
                   [(''preset'', JStr name),
                    (''period'', JInt ?P),
                    (''pattern'', JStr ?pat),
                    (''state_a'', JStr (cfg_state_a cfg)),
                    (''state_b'', JStr (cfg_state_b cfg)),
                    (''sequence'', JList (map (\<lambda>step. projr (preset_sample a b ?pat ?P step))
                                            (py_range ?P))),
                    (''total_steps'', JInt ?P)])"
    by blast
  from generate_ok [OF ka kb, of ?pat 1 ?P 0] a(1) b(1)
  have r2: "?custom =
                 Inr (JObj
                   [(''state_a'', JStr (cfg_state_a cfg)),
                    (''state_b'', JStr (cfg_state_b cfg)),
                    (''pattern'', JStr ?pat),
                    (''num_cycles'', JInt 1),
                    (''steps_per_cycle'', JInt ?P),
                    (''phase_offset'', JNum 0),
                    (''total_steps'', JInt (1 * ?P)),
                    (''sequence'', JList (map (\<lambda>step. projr (rhythmic_sample a b ?pat ?P 0 step))
                                            (py_range (1 * ?P))))])"
    by auto
  have s1: "sequence_of (apply_patina_rhythmic_preset name) =
              map (\<lambda>step. projr (preset_sample a b ?pat ?P step)) (py_range ?P)"
    unfolding r1 by (rule sequence_of_obj) simp
  have s2: "sequence_of ?custom = map (\<lambda>step. projr (rhythmic_sample a b ?pat ?P 0 step)) (py_range ?P)"
    unfolding r2 by (rule sequence_of_obj) simp
  have each: "projr (preset_sample a b ?pat ?P step) =
                without_key ''cycle'' (projr (rhythmic_sample a b ?pat ?P 0 step))
            \<and> field ''cycle'' (projr (rhythmic_sample a b ?pat ?P 0 step)) = Some (JInt 0)"
    if "step \<in> set (py_range ?P)" for step
  proof -
    from that have st: "0 \<le> step" "step < ?P" by (auto simp: py_range_set)
    from rhythmic_sample_ok [OF a(2) b(2), of ?P step 0 ?pat] p
    obtain j where j: "rhythmic_sample a b ?pat ?P 0 step = Inr j" by auto
    show ?thesis
      using rhythmic_sample_as_preset [OF st, of a b ?pat] rhythmic_sample_cycle0 [OF st j]
      by (simp add: j)
  qed
  have eq: "sequence_of (apply_patina_rhythmic_preset name) =
              map (without_key ''cycle'') (sequence_of ?custom)"
    unfolding s1 s2 using each by simp
  have cyc: "\<forall>j \<in> set (sequence_of ?custom). field ''cycle'' j = Some (JInt 0)"
    unfolding s2 using each by auto
  have len: "length (sequence_of (apply_patina_rhythmic_preset name)) = nat ?P"
    unfolding s1 by (simp add: py_range_length)
  have ne1: "\<not> is_error_result (apply_patina_rhythmic_preset name)"
    unfolding r1 by (simp add: is_error_result_def)
  have ne2: "\<not> is_error_result ?custom"
    unfolding r2 by (simp add: is_error_result_def)
  from r1 r2 ne1 ne2 len eq cyc
  show "(\<exists>j. apply_patina_rhythmic_preset name = Inr j)
   \<and> \<not> is_error_result (apply_patina_rhythmic_preset name)
   \<and> (\<exists>j. ?custom = Inr j)
   \<and> \<not> is_error_result ?custom
   \<and> length (sequence_of (apply_patina_rhythmic_preset name)) = nat ?P
   \<and> sequence_of (apply_patina_rhythmic_preset name) =
       map (without_key ''cycle'') (sequence_of ?custom)
   \<and> (\<forall>j \<in> set (sequence_of ?custom). field ''cycle'' j = Some (JInt 0))"
    by blast
qed

text \<open>The agreement theorem at the preset \<^verbatim>\<open>aging_cycle\<close>.\<close>

theorem custom_agrees_with_preset_witness:
  "length (sequence_of (apply_patina_rhythmic_preset ''aging_cycle'')) = 16
   \<and> sequence_of (apply_patina_rhythmic_preset ''aging_cycle'') =
       map (without_key ''cycle'')
         (sequence_of
            (generate_patina_rhythmic_sequence ''fresh_pristine'' ''deep_rust'' ''triangular''
               1 16 0))"
proof -
  let ?cfg = "\<lparr>cfg_period = 16, cfg_state_a = ''fresh_pristine'', cfg_state_b = ''deep_rust'',
          cfg_pattern = ''triangular''\<rparr>"
  have "(''aging_cycle'', ?cfg) \<in> set PATINA_RHYTHMIC_PRESETS"
    by (simp add: PATINA_RHYTHMIC_PRESETS_def)
  with custom_agrees_with_preset show ?thesis by fastforce
qed





section \<open>Verification: vocabulary selection\<close>

lemma getitem_has_axes:
  "has_axes state \<Longrightarrow> k \<in> set PATINA_PARAMETER_NAMES \<Longrightarrow> getitem state k = Inr (the (state k))"
  using has_axes_defined [of state k] by (auto simp: getitem_def)

lemma py_round_zero: "py_round 0 = 0"
  by (simp add: py_round_def)

lemma vocabulary_index_has_axes:
  assumes "has_axes state"
  shows "vocabulary_index category state (int n) =
           Inr (py_round (category_scalar category state * real_of_int (int n - 1)))"
proof -
  have g: "getitem state ''exposure_duration'' = Inr (the (state ''exposure_duration''))"
          "getitem state ''agent_intensity'' = Inr (the (state ''agent_intensity''))"
          "getitem state ''material_resistance'' = Inr (the (state ''material_resistance''))"
          "getitem state ''intervention_state'' = Inr (the (state ''intervention_state''))"
    by (rule getitem_has_axes [OF assms], simp add: PATINA_PARAMETER_NAMES_def)+
  show ?thesis
    unfolding vocabulary_index_def category_scalar_def g Let_def
    by (simp only: sum.case if_distrib [of Inr] if_distrib [of py_round]
          if_distrib [of "\<lambda>v. v * real_of_int (int n - 1)"] mult_zero_left)
       (simp add: py_round_zero)
qed

lemma clamped_index_range:
  "0 < n \<Longrightarrow> 0 \<le> clamped_index category state n \<and> clamped_index category state n \<le> int n - 1"
  by (simp add: clamped_index_def)

lemma py_index_in_range: "0 \<le> i \<Longrightarrow> i < int (length xs) \<Longrightarrow> py_index xs i = Inr (xs ! nat i)"
  by (simp add: py_index_def)

lemma dict_fromkeys3:
  "dict_fromkeys [l, m, r] =
     (if m = l then (if r = l then [l] else [l, r])
      else if r = l \<or> r = m then [l, m] else [l, m, r])"
  by (simp add: dict_fromkeys_def)

lemma select_terms_has_axes:
  assumes "has_axes state" "terms \<noteq> []"
  shows "select_terms category terms state =
           Inr (dict_fromkeys
             [terms ! nat (max 0 (clamped_index category state (length terms) - 1)),
              terms ! nat (clamped_index category state (length terms)),
              terms ! nat (min (int (length terms) - 1)
                               (clamped_index category state (length terms) + 1))])"
proof -
  let ?n = "length terms"
  let ?idx = "clamped_index category state ?n"
  have n: "0 < ?n" using assms(2) by simp
  from clamped_index_range [OF n] have r: "0 \<le> ?idx" "?idx \<le> int ?n - 1" by auto
  have l: "py_index terms (max 0 (?idx - 1)) = Inr (terms ! nat (max 0 (?idx - 1)))"
    using r by (intro py_index_in_range) auto
  have m: "py_index terms ?idx = Inr (terms ! nat ?idx)"
    using r by (intro py_index_in_range) auto
  have rr: "py_index terms (min (int ?n - 1) (?idx + 1)) =
              Inr (terms ! nat (min (int ?n - 1) (?idx + 1)))"
    using r by (intro py_index_in_range) auto
  have c: "max 0 (min (py_round (category_scalar category state * real_of_int (int ?n - 1)))
             (int ?n - 1)) = ?idx"
    by (simp add: clamped_index_def)
  show ?thesis
    unfolding select_terms_def vocabulary_index_has_axes [OF assms(1)] 
    by (simp only: sum.case Let_def c l m rr)
qed

lemma select_vocabulary_ok:
  assumes "has_axes state" "\<forall>(c, ts) \<in> set vocabulary. ts \<noteq> []"
  shows "patina_select_vocabulary vocabulary state =
           Inr (map (\<lambda>(c, ts). (c, projr (select_terms c ts state))) vocabulary)"
proof -
  let ?body = "\<lambda>(category, terms).
          case select_terms category terms state of
            Inl e \<Rightarrow> Inl e
          | Inr selected \<Rightarrow> Inr (category, selected)"
  have ok: "?body x = Inr (case x of (c, ts) \<Rightarrow> (c, projr (select_terms c ts state)))"
    if "x \<in> set vocabulary" for x
  proof -
    obtain c ts where x: "x = (c, ts)" by (cases x)
    with that assms(2) have "ts \<noteq> []" by auto
    from select_terms_has_axes [OF assms(1) this, of c] show ?thesis by (simp add: x)
  qed
  then have "\<forall>x \<in> set vocabulary. \<exists>y. ?body x = Inr y" by blast
  then have "for_each ?body vocabulary = Inr (map (\<lambda>x. projr (?body x)) vocabulary)"
    by (rule for_each_all_ok)
  also have "map (\<lambda>x. projr (?body x)) vocabulary =
             map (\<lambda>(c, ts). (c, projr (select_terms c ts state))) vocabulary"
    using ok by (intro map_cong) auto
  finally show ?thesis by (simp add: patina_select_vocabulary_def)
qed

text \<open>
  Claim C8: for a valid coordinate and a category with \<open>n > 0\<close> phrases, the selector
  computes the category's index, clamps it to \<open>[0, n - 1]\<close>, and returns the phrases at the
  index to its left, at the index and at the index to its right, without repetition and
  in that order: between one and three phrases of the category, fewer than three when
  the index is the first or the last, and exactly the three neighbours when the phrases
  are distinct and the index is interior. The selection of the whole table succeeds and
  keeps the categories in order. The index is the integer that \<open>vocabulary_index\<close>
  returns, the rounding of the category's scalar times \<open>n - 1\<close>; the properties hold for
  whatever integer that is.
\<close>

theorem vocabulary_selection:
  assumes "valid_coord state"
      and "(category, terms) \<in> set vocabulary"
      and "\<forall>(c, ts) \<in> set vocabulary. ts \<noteq> []"
  shows "\<exists>idx0.
         vocabulary_index category state (int (length terms)) = Inr idx0 \<and>
        (let n = length terms;
             idx = max 0 (min idx0 (int n - 1));
             left = terms ! nat (max 0 (idx - 1));
             mid = terms ! nat idx;
             right = terms ! nat (min (int n - 1) (idx + 1));
             chosen = dict_fromkeys [left, mid, right]
         in 0 \<le> idx \<and> idx \<le> int n - 1
          \<and> select_terms category terms state = Inr chosen
          \<and> 1 \<le> length chosen \<and> length chosen \<le> 3
          \<and> distinct chosen \<and> mid \<in> set chosen \<and> set chosen \<subseteq> set terms
          \<and> (idx = 0 \<or> idx = int n - 1 \<longrightarrow> length chosen < 3)
          \<and> (distinct terms \<and> 0 < idx \<and> idx < int n - 1 \<longrightarrow> chosen = [left, mid, right])
          \<and> (\<exists>selected. patina_select_vocabulary vocabulary state = Inr selected
                \<and> map fst selected = map fst vocabulary
                \<and> (category, chosen) \<in> set selected))"
proof -
  note h = valid_has_axes [OF assms(1)]
  define n where "n = length terms"
  define idx0 where
    "idx0 = py_round (category_scalar category state * real_of_int (int (length terms) - 1))"
  have vi: "vocabulary_index category state (int (length terms)) = Inr idx0"
    unfolding idx0_def by (rule vocabulary_index_has_axes [OF h])
  define idx where "idx = max 0 (min idx0 (int n - 1))"
  have ci: "clamped_index category state (length terms) = idx"
    by (simp add: idx_def idx0_def clamped_index_def n_def)
  define left where "left = terms ! nat (max 0 (idx - 1))"
  define mid where "mid = terms ! nat idx"
  define right where "right = terms ! nat (min (int n - 1) (idx + 1))"
  define chosen where "chosen = dict_fromkeys [left, mid, right]"
  have ne: "terms \<noteq> []" using assms(2,3) by auto
  then have n: "0 < n" by (simp add: n_def)
  from n have r: "0 \<le> idx" "idx \<le> int n - 1" by (auto simp: idx_def)
  have sel: "select_terms category terms state = Inr chosen"
    unfolding chosen_def left_def mid_def right_def n_def
    using select_terms_has_axes [OF h ne, of category] unfolding ci .
  have mem: "left \<in> set terms" "mid \<in> set terms" "right \<in> set terms"
    using r n unfolding left_def mid_def right_def n_def by (auto intro!: nth_mem)
  have ch: "chosen =
     (if mid = left then (if right = left then [left] else [left, right])
      else if right = left \<or> right = mid then [left, mid] else [left, mid, right])"
    unfolding chosen_def by (rule dict_fromkeys3)
  have len: "1 \<le> length chosen" "length chosen \<le> 3" "distinct chosen" "mid \<in> set chosen"
    "set chosen \<subseteq> set terms"
    using mem by (auto simp: ch)
  have edge: "length chosen < 3" if "idx = 0 \<or> idx = int n - 1"
  proof -
    from that have "mid = left \<or> mid = right"
      unfolding left_def mid_def right_def by auto
    then show ?thesis by (auto simp: ch)
  qed
  have inner: "chosen = [left, mid, right]" if "distinct terms" "0 < idx" "idx < int n - 1"
  proof -
    have i: "nat (max 0 (idx - 1)) < length terms" "nat idx < length terms"
      "nat (min (int n - 1) (idx + 1)) < length terms"
      using that r by (auto simp: n_def)
    have "nat (max 0 (idx - 1)) \<noteq> nat idx" "nat idx \<noteq> nat (min (int n - 1) (idx + 1))"
      "nat (max 0 (idx - 1)) \<noteq> nat (min (int n - 1) (idx + 1))"
      using that by auto
    then have "left \<noteq> mid" "mid \<noteq> right" "left \<noteq> right"
      unfolding left_def mid_def right_def
      using that(1) i by (auto simp: nth_eq_iff_index_eq)
    then show ?thesis by (auto simp: ch)
  qed
  have tab: "\<exists>selected. patina_select_vocabulary vocabulary state = Inr selected
                \<and> map fst selected = map fst vocabulary
                \<and> (category, chosen) \<in> set selected"
  proof -
    let ?sel = "map (\<lambda>(c, ts). (c, projr (select_terms c ts state))) vocabulary"
    have "patina_select_vocabulary vocabulary state = Inr ?sel"
      by (rule select_vocabulary_ok [OF h assms(3)])
    moreover have "map fst ?sel = map fst vocabulary" by (auto simp: case_prod_beta)
    moreover have "(category, chosen) \<in> set ?sel"
      using assms(2) sel by force
    ultimately show ?thesis by blast
  qed
  have body: "0 \<le> idx \<and> idx \<le> int n - 1
          \<and> select_terms category terms state = Inr chosen
          \<and> 1 \<le> length chosen \<and> length chosen \<le> 3
          \<and> distinct chosen \<and> mid \<in> set chosen \<and> set chosen \<subseteq> set terms
          \<and> (idx = 0 \<or> idx = int n - 1 \<longrightarrow> length chosen < 3)
          \<and> (distinct terms \<and> 0 < idx \<and> idx < int n - 1 \<longrightarrow> chosen = [left, mid, right])
          \<and> (\<exists>selected. patina_select_vocabulary vocabulary state = Inr selected
                \<and> map fst selected = map fst vocabulary
                \<and> (category, chosen) \<in> set selected)"
    using r sel len edge inner tab by blast
  show ?thesis
    apply (rule exI [of _ idx0])
    apply (rule conjI)
     apply (rule vi)
    apply (unfold Let_def)
    apply (rule body [unfolded chosen_def left_def mid_def right_def idx_def n_def])
    done
qed

lemma py_round_21_10: "py_round (21 / 10) = 2"
  by (simp add: py_round_def)

text \<open>The selection theorem at \<^verbatim>\<open>gentle_patina\<close> and a table of eight numbered phrases.\<close>

theorem vocabulary_selection_witness:
  "valid_coord (point 0.30 0.20 0.60 0.05 0.85)
   \<and> select_terms ''surface_texture'' [10, 11, 12, 13, 14, 15, 16, 17 :: nat]
        (point 0.30 0.20 0.60 0.05 0.85) = Inr [11, 12, 13]
   \<and> patina_select_vocabulary [(''surface_texture'', [10, 11, 12, 13, 14, 15, 16, 17 :: nat])]
        (point 0.30 0.20 0.60 0.05 0.85) = Inr [(''surface_texture'', [11, 12, 13])]"
proof -
  let ?p = "point 0.30 0.20 0.60 0.05 0.85"
  let ?ts = "[10, 11, 12, 13, 14, 15, 16, 17 :: nat]"
  let ?v = "[(''surface_texture'', ?ts)]"
  have v: "valid_coord ?p" by (rule valid_point) simp_all
  have mem: "(''surface_texture'', ?ts) \<in> set ?v" by simp
  have ne: "\<forall>(c, ts) \<in> set ?v. ts \<noteq> []" by simp
  have sc: "category_scalar ''surface_texture'' ?p = 3 / 10"
    by (simp add: category_scalar_def point_def)
  have two: "vocabulary_index ''surface_texture'' ?p (int (length ?ts)) = Inr 2"
    unfolding vocabulary_index_has_axes [OF valid_has_axes [OF v]] sc
    by (simp add: py_round_21_10)
  from vocabulary_selection [OF v mem ne, unfolded Let_def two] obtain idx0 where
    i: "Inr 2 = (Inr idx0 :: py_error + int)" and
    sel_fact: "select_terms ''surface_texture'' ?ts ?p =
        Inr (dict_fromkeys [?ts ! nat (max 0 (max 0 (min idx0 (int (length ?ts) - 1)) - 1)),
               ?ts ! nat (max 0 (min idx0 (int (length ?ts) - 1))),
               ?ts ! nat (min (int (length ?ts) - 1)
                             (max 0 (min idx0 (int (length ?ts) - 1)) + 1))])"
    and tab: "\<exists>selected. patina_select_vocabulary ?v ?p = Inr selected
                \<and> map fst selected = map fst ?v
                \<and> (''surface_texture'',
                    dict_fromkeys [?ts ! nat (max 0 (max 0 (min idx0 (int (length ?ts) - 1)) - 1)),
                      ?ts ! nat (max 0 (min idx0 (int (length ?ts) - 1))),
                      ?ts ! nat (min (int (length ?ts) - 1)
                             (max 0 (min idx0 (int (length ?ts) - 1)) + 1))]) \<in> set selected"
    by blast
  from i have idx0: "idx0 = 2" by simp
  have ch: "dict_fromkeys [?ts ! nat (max 0 (max 0 (min 2 (int (length ?ts) - 1)) - 1)),
               ?ts ! nat (max 0 (min 2 (int (length ?ts) - 1))),
               ?ts ! nat (min (int (length ?ts) - 1)
                             (max 0 (min 2 (int (length ?ts) - 1)) + 1))] = [11, 12, 13]"
    by (simp add: dict_fromkeys_def)
  from sel_fact have s: "select_terms ''surface_texture'' ?ts ?p = Inr [11, 12, 13]"
    unfolding idx0 ch .
  from tab obtain selected where
    "patina_select_vocabulary ?v ?p = Inr selected" "map fst selected = map fst ?v"
    "(''surface_texture'', [11, 12, 13]) \<in> set selected"
    unfolding idx0 ch by blast
  then have "patina_select_vocabulary ?v ?p = Inr [(''surface_texture'', [11, 12, 13])]"
    by (cases selected) auto
  with v s show ?thesis by simp
qed

section \<open>Verification: prompt assembly\<close>

lemma nearest_period_scan_append:
  "nearest_period_scan target (xs @ ys) best =
     nearest_period_scan target ys (nearest_period_scan target xs best)"
  by (induction target xs best rule: nearest_period_scan.induct) (simp_all add: Let_def)

lemma nearest_period_scan_ok:
  "catalog \<noteq> [] \<Longrightarrow>
   nearest_period_ok target catalog (nearest_period_scan target catalog None)"
proof (induction catalog rule: rev_induct)
  case Nil
  then show ?case by simp
next
  case (snoc x xs)
  obtain k cfg where x: "x = (k, cfg)" by (cases x)
  define dc where "dc = \<bar>cfg_period cfg - target\<bar>"
  show ?case
  proof (cases "xs = []")
    case True
    show ?thesis
      unfolding nearest_period_ok_def True x
      by (intro exI [of _ k] exI [of _ dc] exI [of _ 0]) (simp add: dc_def)
  next
    case False
    with snoc.IH obtain pname diff i where
          r: "nearest_period_scan target xs None = Some (pname, diff)"
      and i: "i < length xs" "fst (xs ! i) = pname"
      and d: "diff = \<bar>cfg_period (snd (xs ! i)) - target\<bar>"
      and mn: "\<forall>j < length xs. diff \<le> \<bar>cfg_period (snd (xs ! j)) - target\<bar>
                 \<and> (j < i \<longrightarrow> diff < \<bar>cfg_period (snd (xs ! j)) - target\<bar>)"
      unfolding nearest_period_ok_def by blast
    have step: "nearest_period_scan target (xs @ [x]) None =
                  (if dc < diff then Some (k, dc) else Some (pname, diff))"
      by (simp add: nearest_period_scan_append r x dc_def Let_def)
    show ?thesis
    proof (cases "dc < diff")
      case True
      have "\<forall>j < length (xs @ [x]).
              dc \<le> \<bar>cfg_period (snd ((xs @ [x]) ! j)) - target\<bar>
            \<and> (j < length xs \<longrightarrow> dc < \<bar>cfg_period (snd ((xs @ [x]) ! j)) - target\<bar>)"
        using mn True by (auto simp: nth_append x dc_def less_Suc_eq)
      then show ?thesis
        unfolding nearest_period_ok_def step
        using True
        by (intro exI [of _ k] exI [of _ dc] exI [of _ "length xs"]) (simp add: x dc_def)
    next
      case False
      have "\<forall>j < length (xs @ [x]).
              diff \<le> \<bar>cfg_period (snd ((xs @ [x]) ! j)) - target\<bar>
            \<and> (j < i \<longrightarrow> diff < \<bar>cfg_period (snd ((xs @ [x]) ! j)) - target\<bar>)"
        using mn False i(1) by (auto simp: nth_append x dc_def less_Suc_eq)
      then show ?thesis
        unfolding nearest_period_ok_def step
        using False i d
        by (intro exI [of _ pname] exI [of _ diff] exI [of _ i]) (simp add: nth_append)
    qed
  qed
qed

lemma strip_period:
  "str_replace ''period_'' [] ''period_30'' = ''30''"
  "str_replace ''period_'' [] ''period_29'' = ''29''"
  "str_replace ''period_'' [] ''period_19'' = ''19''"
  "str_replace ''period_'' [] ''period_28'' = ''28''"
  "str_replace ''period_'' [] ''period_60'' = ''60''"
  by simp_all

lemma py_int_periods:
  "py_int ''30'' = Some 30" "py_int ''29'' = Some 29" "py_int ''19'' = Some 19"
  "py_int ''28'' = Some 28" "py_int ''60'' = Some 60"
  by (simp_all add: py_int_def digit_of_def)

lemma attractor_targets:
  "map (\<lambda>(attractor_id, meta). target_period_of attractor_id (Some meta)) PATINA_ATTRACTOR_PRESETS
     = [30, 29, 19, 28, 60, 30, 30]"
  by (simp add: PATINA_ATTRACTOR_PRESETS_def target_period_of_def strip_period py_int_periods)

lemma custom_target: "target_period_of attractor_id None = 30"
  by (simp add: target_period_of_def)

lemma scan_19:
  "nearest_period_scan 19 PATINA_RHYTHMIC_PRESETS None = Some (''restoration_pendulum'', 1)"
  by (simp add: PATINA_RHYTHMIC_PRESETS_def)

lemma map_of_axis_items: "map_of (axis_items e a r i c) = point e a r i c"
  by (auto simp: axis_items_def point_def fun_eq_iff)

lemma nearest_visual_type_key:
  assumes "has_axes state"
  shows "\<exists>v d. patina_nearest_visual_type state = Inr (Some (v, d))
             \<and> v \<in> fst ` set PATINA_VISUAL_TYPES"
proof -
  have "PATINA_VISUAL_TYPES \<noteq> []" by (simp add: PATINA_VISUAL_TYPES_def)
  then have "nearest_ok patina_euclidean_distance state PATINA_VISUAL_TYPES
               (patina_nearest_visual_type state)"
    unfolding patina_nearest_visual_type_def
    by (intro nearest_exact_ok assms visual_has_axes visual_distinct)
  then obtain sid d i where "patina_nearest_visual_type state = Inr (Some (sid, d))"
    "i < length PATINA_VISUAL_TYPES" "fst (PATINA_VISUAL_TYPES ! i) = sid"
    unfolding nearest_ok_def by blast
  then show ?thesis by (metis image_eqI nth_mem)
qed

lemma nearest_canonical_total:
  assumes "has_axes state"
  shows "\<exists>sid d. patina_nearest_canonical state = Inr (Some (sid, d))"
proof -
  have "PATINA_CANONICAL_STATES \<noteq> []" by (simp add: PATINA_CANONICAL_STATES_def)
  then have "nearest_ok patina_euclidean_distance state PATINA_CANONICAL_STATES
               (patina_nearest_canonical state)"
    unfolding patina_nearest_canonical_def
    by (intro nearest_exact_ok assms canonical_has_axes canonical_distinct)
  then show ?thesis unfolding nearest_ok_def by blast
qed

lemma keyframe_ok:
  assumes "has_axes state_a" "has_axes state_b" "period \<noteq> 0"
      and "\<forall>(c, ts) \<in> set (tt_vocabulary T). ts \<noteq> []"
  shows "\<exists>y. keyframe T prefix state_a state_b pattern period step_size ki = Inr y"
proof -
  let ?t = "real_of_int ((ki * step_size) mod period) / real_of_int period"
  from interpolate_result_has_axes [OF assms(1,2)] obtain st where
    st: "patina_interpolate_states state_a state_b ?t pattern = Inr st" and h: "has_axes st"
    by blast
  from nearest_visual_type_key [OF h] obtain v d where
    b: "patina_nearest_visual_type st = Inr (Some (v, d))" "v \<in> fst ` set PATINA_VISUAL_TYPES"
    by blast
  note voc = select_vocabulary_ok [OF h assms(4)]
  show ?thesis
    using assms(3) b(2)
    by (simp add: keyframe_def Let_def st b(1) voc)
qed

lemma sequence_mode_ok:
  assumes kc: "keyframe_count \<noteq> 0"
      and voc: "\<forall>(c, ts) \<in> set (tt_vocabulary T). ts \<noteq> []"
  shows "\<exists>pname diff cfg keyframes.
           nearest_period_scan (target_period_of attractor_id attractor_meta)
             PATINA_RHYTHMIC_PRESETS None = Some (pname, diff)
         \<and> (pname, cfg) \<in> set PATINA_RHYTHMIC_PRESETS
         \<and> sequence_mode T attractor_id attractor_meta prefix keyframe_count =
             Inr (JObj
               [(''mode'', JStr ''sequence''),
                (''preset_used'', JStr pname),
                (''preset_period'', JInt (cfg_period cfg)),
                (''keyframe_count'', JInt keyframe_count),
                (''keyframes'', JList keyframes),
                (''attractor'', attractor_json T attractor_id attractor_meta False)])
         \<and> length keyframes = nat keyframe_count"
proof -
  let ?target = "target_period_of attractor_id attractor_meta"
  have "PATINA_RHYTHMIC_PRESETS \<noteq> []" by (simp add: PATINA_RHYTHMIC_PRESETS_def)
  from nearest_period_scan_ok [OF this, of ?target] obtain pname diff i where
        r: "nearest_period_scan ?target PATINA_RHYTHMIC_PRESETS None = Some (pname, diff)"
    and i: "i < length PATINA_RHYTHMIC_PRESETS" "fst (PATINA_RHYTHMIC_PRESETS ! i) = pname"
    unfolding nearest_period_ok_def by blast
  define cfg where "cfg = snd (PATINA_RHYTHMIC_PRESETS ! i)"
  have mem: "(pname, cfg) \<in> set PATINA_RHYTHMIC_PRESETS"
    using i(2) nth_mem [OF i(1)] unfolding cfg_def by (metis prod.collapse)
  from presets_wf mem have m: "map_of PATINA_RHYTHMIC_PRESETS pname = Some cfg"
    and ka: "cfg_state_a cfg \<in> fst ` set PATINA_CANONICAL_STATES"
    and kb: "cfg_state_b cfg \<in> fst ` set PATINA_CANONICAL_STATES"
    and p: "0 < cfg_period cfg" by auto
  from canonical_get [OF ka] canonical_get [OF kb] obtain a b' where
    a: "dict_get PATINA_CANONICAL_STATES (cfg_state_a cfg) = Inr a" "has_axes a" and
    b': "dict_get PATINA_CANONICAL_STATES (cfg_state_b cfg) = Inr b'" "has_axes b'" by blast
  let ?body = "keyframe T prefix a b' (cfg_pattern cfg) (cfg_period cfg)
                 (max 1 (cfg_period cfg div keyframe_count))"
  have "\<forall>ki \<in> set (py_range keyframe_count). \<exists>y. ?body ki = Inr y"
    using keyframe_ok [OF a(2) b'(2) _ voc, of "cfg_period cfg"] p by simp
  then have fe: "for_each ?body (py_range keyframe_count) =
                  Inr (map (\<lambda>ki. projr (?body ki)) (py_range keyframe_count))"
    by (rule for_each_all_ok)
  have "sequence_mode T attractor_id attractor_meta prefix keyframe_count =
              Inr (JObj
               [(''mode'', JStr ''sequence''),
                (''preset_used'', JStr pname),
                (''preset_period'', JInt (cfg_period cfg)),
                (''keyframe_count'', JInt keyframe_count),
                (''keyframes'', JList (map (\<lambda>ki. projr (?body ki)) (py_range keyframe_count))),
                (''attractor'', attractor_json T attractor_id attractor_meta False)])"
    using kc
    by (simp add: sequence_mode_def r dict_get_def m a(1) [unfolded dict_get_def]
          b'(1) [unfolded dict_get_def] Let_def fe)
  with r mem show ?thesis by (auto simp: py_range_length)
qed

lemma attractor_prompt_sequence:
  assumes voc: "\<forall>(c, ts) \<in> set (tt_vocabulary T). ts \<noteq> []"
      and res: "resolve_state attractor_id custom_state = Inr (attractor_meta, items)"
      and h: "has_axes (map_of items)"
  shows "generate_patina_attractor_prompt T attractor_id custom_state ''sequence'' style_modifier
           keyframe_count =
         sequence_mode T attractor_id attractor_meta
           (if style_modifier \<noteq> [] then style_modifier @ '', '' else []) keyframe_count"
proof -
  from nearest_visual_type_key [OF h] obtain v d where
    b: "patina_nearest_visual_type (map_of items) = Inr (Some (v, d))"
       "v \<in> fst ` set PATINA_VISUAL_TYPES"
    by blast
  note sv = select_vocabulary_ok [OF h voc]
  from nearest_canonical_total [OF h] obtain cs cd where
    c: "patina_nearest_canonical (map_of items) = Inr (Some (cs, cd))" by blast
  show ?thesis
    using b(2)
    by (simp add: generate_patina_attractor_prompt_def res b(1) sv c Let_def)
qed

lemma attractors_resolve:
  "\<forall>(attractor_id, meta) \<in> set PATINA_ATTRACTOR_PRESETS.
     resolve_state attractor_id None = Inr (Some meta, att_state meta)
   \<and> has_axes (map_of (att_state meta))"
  by (simp add: PATINA_ATTRACTOR_PRESETS_def resolve_state_def map_of_axis_items has_axes_point)

text \<open>
  Claim C6: the scan over the rhythmic presets returns, for every target period, a
  preset whose period is at the least distance from the target, and the first such
  preset in catalogue order. The target is the number in the attractor's identifier for
  the five attractors with a basin size, and 30 for the two curated attractors and for a
  custom state. In sequence mode the tool reports the preset the scan returns for that
  target. For \<^verbatim>\<open>period_19\<close> the target is 19 and the scan returns
  \<^verbatim>\<open>restoration_pendulum\<close>, of period 20, which no configured period beats.
\<close>

theorem sequence_preset_selection:
  "(\<forall>target_period.
      nearest_period_ok target_period PATINA_RHYTHMIC_PRESETS
        (nearest_period_scan target_period PATINA_RHYTHMIC_PRESETS None))
   \<and> map (\<lambda>(attractor_id, meta). target_period_of attractor_id (Some meta))
        PATINA_ATTRACTOR_PRESETS = [30, 29, 19, 28, 60, 30, 30]
   \<and> (\<forall>attractor_id. target_period_of attractor_id None = 30)
   \<and> (\<forall>(T :: text_tables) attractor_id custom_state attractor_meta items style_modifier
         keyframe_count.
         resolve_state attractor_id custom_state = Inr (attractor_meta, items)
         \<and> has_axes (map_of items) \<and> keyframe_count \<noteq> 0
         \<and> (\<forall>(c, ts) \<in> set (tt_vocabulary T). ts \<noteq> []) \<longrightarrow>
         (\<exists>pname diff cfg keyframes.
            nearest_period_scan (target_period_of attractor_id attractor_meta)
              PATINA_RHYTHMIC_PRESETS None = Some (pname, diff)
          \<and> (pname, cfg) \<in> set PATINA_RHYTHMIC_PRESETS
          \<and> generate_patina_attractor_prompt T attractor_id custom_state ''sequence''
               style_modifier keyframe_count =
              Inr (JObj
                [(''mode'', JStr ''sequence''),
                 (''preset_used'', JStr pname),
                 (''preset_period'', JInt (cfg_period cfg)),
                 (''keyframe_count'', JInt keyframe_count),
                 (''keyframes'', JList keyframes),
                 (''attractor'', attractor_json T attractor_id attractor_meta False)])
          \<and> length keyframes = nat keyframe_count))
   \<and> resolve_state ''period_19'' None =
        Inr (Some \<lparr>att_basin_size = Some 0.074, att_classification = ''novel'',
                   att_state = axis_items 0.48 0.42 0.65 0.08 0.82\<rparr>,
             axis_items 0.48 0.42 0.65 0.08 0.82)
   \<and> nearest_period_scan 19 PATINA_RHYTHMIC_PRESETS None = Some (''restoration_pendulum'', 1)
   \<and> map_of PATINA_RHYTHMIC_PRESETS ''restoration_pendulum'' =
        Some \<lparr>cfg_period = 20, cfg_state_a = ''total_ruin'', cfg_state_b = ''gentle_patina'',
              cfg_pattern = ''sinusoidal''\<rparr>
   \<and> (\<forall>(pname, cfg) \<in> set PATINA_RHYTHMIC_PRESETS. \<bar>20 - 19\<bar> \<le> \<bar>cfg_period cfg - 19\<bar>)"
proof (intro conjI allI impI)
  fix target_period
  have "PATINA_RHYTHMIC_PRESETS \<noteq> []" by (simp add: PATINA_RHYTHMIC_PRESETS_def)
  then show "nearest_period_ok target_period PATINA_RHYTHMIC_PRESETS
        (nearest_period_scan target_period PATINA_RHYTHMIC_PRESETS None)"
    by (rule nearest_period_scan_ok)
next
  show "map (\<lambda>(attractor_id, meta). target_period_of attractor_id (Some meta))
        PATINA_ATTRACTOR_PRESETS = [30, 29, 19, 28, 60, 30, 30]"
    by (rule attractor_targets)
next
  fix attractor_id show "target_period_of attractor_id None = 30" by (rule custom_target)
next
  fix T :: text_tables and attractor_id custom_state attractor_meta items style_modifier
    and keyframe_count :: int
  assume as: "resolve_state attractor_id custom_state = Inr (attractor_meta, items)
         \<and> has_axes (map_of items) \<and> keyframe_count \<noteq> 0
         \<and> (\<forall>(c, ts) \<in> set (tt_vocabulary T). ts \<noteq> [])"
  then have res: "resolve_state attractor_id custom_state = Inr (attractor_meta, items)"
    and h: "has_axes (map_of items)" and kc: "keyframe_count \<noteq> 0"
    and voc: "\<forall>(c, ts) \<in> set (tt_vocabulary T). ts \<noteq> []" by blast+
  show "\<exists>pname diff cfg keyframes.
            nearest_period_scan (target_period_of attractor_id attractor_meta)
              PATINA_RHYTHMIC_PRESETS None = Some (pname, diff)
          \<and> (pname, cfg) \<in> set PATINA_RHYTHMIC_PRESETS
          \<and> generate_patina_attractor_prompt T attractor_id custom_state ''sequence''
               style_modifier keyframe_count =
              Inr (JObj
                [(''mode'', JStr ''sequence''),
                 (''preset_used'', JStr pname),
                 (''preset_period'', JInt (cfg_period cfg)),
                 (''keyframe_count'', JInt keyframe_count),
                 (''keyframes'', JList keyframes),
                 (''attractor'', attractor_json T attractor_id attractor_meta False)])
          \<and> length keyframes = nat keyframe_count"
    unfolding attractor_prompt_sequence [OF voc res h]
    by (rule sequence_mode_ok [OF kc voc])
next
  show "resolve_state ''period_19'' None =
        Inr (Some \<lparr>att_basin_size = Some 0.074, att_classification = ''novel'',
                   att_state = axis_items 0.48 0.42 0.65 0.08 0.82\<rparr>,
             axis_items 0.48 0.42 0.65 0.08 0.82)"
    by (simp add: resolve_state_def PATINA_ATTRACTOR_PRESETS_def)
next
  show "nearest_period_scan 19 PATINA_RHYTHMIC_PRESETS None = Some (''restoration_pendulum'', 1)"
    by (rule scan_19)
next
  show "map_of PATINA_RHYTHMIC_PRESETS ''restoration_pendulum'' =
        Some \<lparr>cfg_period = 20, cfg_state_a = ''total_ruin'', cfg_state_b = ''gentle_patina'',
              cfg_pattern = ''sinusoidal''\<rparr>"
    by (simp add: PATINA_RHYTHMIC_PRESETS_def)
next
  show "\<forall>(pname, cfg) \<in> set PATINA_RHYTHMIC_PRESETS. \<bar>20 - 19\<bar> \<le> \<bar>cfg_period cfg - 19\<bar>"
    by (simp add: PATINA_RHYTHMIC_PRESETS_def)
qed

text \<open>The selection theorem at \<^verbatim>\<open>period_19\<close>, four keyframes and the sample tables.\<close>

theorem sequence_preset_selection_witness:
  "\<exists>keyframes.
     generate_patina_attractor_prompt sample_tables ''period_19'' None ''sequence'' '''' 4 =
       Inr (JObj
         [(''mode'', JStr ''sequence''),
          (''preset_used'', JStr ''restoration_pendulum''),
          (''preset_period'', JInt 20),
          (''keyframe_count'', JInt 4),
          (''keyframes'', JList keyframes),
          (''attractor'',
             JObj [(''id'', JStr ''period_19''),
                   (''name'', JStr ''period_19''),
                   (''classification'', JStr ''novel'')])])
   \<and> length keyframes = 4"
proof -
  define meta where "meta = \<lparr>att_basin_size = Some 0.074, att_classification = ''novel'',
                   att_state = axis_items 0.48 0.42 0.65 0.08 0.82\<rparr>"
  note sel = sequence_preset_selection
  from sel have targets: "map (\<lambda>(attractor_id, meta). target_period_of attractor_id (Some meta))
        PATINA_ATTRACTOR_PRESETS = [30, 29, 19, 28, 60, 30, 30]" by blast
  then have tp: "target_period_of ''period_19'' (Some meta) = 19"
    by (simp add: PATINA_ATTRACTOR_PRESETS_def meta_def)
  from sel have res: "resolve_state ''period_19'' None =
      Inr (Some meta, axis_items 0.48 0.42 0.65 0.08 0.82)"
    unfolding meta_def by blast
  from sel have scan: "nearest_period_scan 19 PATINA_RHYTHMIC_PRESETS None =
      Some (''restoration_pendulum'', 1)" by blast
  have h: "has_axes (map_of (axis_items 0.48 0.42 0.65 0.08 0.82))"
    unfolding map_of_axis_items by (rule has_axes_point)
  have voc: "\<forall>(c, ts) \<in> set (tt_vocabulary sample_tables). ts \<noteq> []"
    by (simp add: sample_tables_def)
  have kc: "(4 :: int) \<noteq> 0" by simp
  from sel have gen: "resolve_state ''period_19'' None =
         Inr (Some meta, axis_items 0.48 0.42 0.65 0.08 0.82)
         \<and> has_axes (map_of (axis_items 0.48 0.42 0.65 0.08 0.82)) \<and> (4 :: int) \<noteq> 0
         \<and> (\<forall>(c, ts) \<in> set (tt_vocabulary sample_tables). ts \<noteq> []) \<longrightarrow>
         (\<exists>pname diff cfg keyframes.
            nearest_period_scan (target_period_of ''period_19'' (Some meta))
              PATINA_RHYTHMIC_PRESETS None = Some (pname, diff)
          \<and> (pname, cfg) \<in> set PATINA_RHYTHMIC_PRESETS
          \<and> generate_patina_attractor_prompt sample_tables ''period_19'' None ''sequence''
               '''' 4 =
              Inr (JObj
                [(''mode'', JStr ''sequence''),
                 (''preset_used'', JStr pname),
                 (''preset_period'', JInt (cfg_period cfg)),
                 (''keyframe_count'', JInt 4),
                 (''keyframes'', JList keyframes),
                 (''attractor'', attractor_json sample_tables ''period_19'' (Some meta) False)])
          \<and> length keyframes = nat 4)"
    by blast
  with res h kc voc obtain pname diff cfg keyframes where
        s: "nearest_period_scan (target_period_of ''period_19'' (Some meta))
              PATINA_RHYTHMIC_PRESETS None = Some (pname, diff)"
    and m: "(pname, cfg) \<in> set PATINA_RHYTHMIC_PRESETS"
    and g: "generate_patina_attractor_prompt sample_tables ''period_19'' None ''sequence''
               '''' 4 =
              Inr (JObj
                [(''mode'', JStr ''sequence''),
                 (''preset_used'', JStr pname),
                 (''preset_period'', JInt (cfg_period cfg)),
                 (''keyframe_count'', JInt 4),
                 (''keyframes'', JList keyframes),
                 (''attractor'', attractor_json sample_tables ''period_19'' (Some meta) False)])"
    and l: "length keyframes = nat 4"
    by blast
  from s have pn: "pname = ''restoration_pendulum''" unfolding tp scan by simp
  with m have p20: "cfg_period cfg = 20" by (auto simp: PATINA_RHYTHMIC_PRESETS_def)
  have aj: "attractor_json sample_tables ''period_19'' (Some meta) False =
              JObj [(''id'', JStr ''period_19''),
                   (''name'', JStr ''period_19''),
                   (''classification'', JStr ''novel'')]"
    by (simp add: attractor_json_def meta_def sample_tables_def)
  from g l show ?thesis unfolding pn p20 aj by auto
qed

section \<open>Verification: axis validation\<close>

lemma sum_sq_diff_cong:
  "\<forall>p \<in> set ps. a p = a' p \<and> b p = b' p \<Longrightarrow> sum_sq_diff a b ps acc = sum_sq_diff a' b' ps acc"
  by (induction ps arbitrary: acc) (auto split: option.splits)

lemma distance_cong:
  "\<forall>p \<in> set PATINA_PARAMETER_NAMES. a p = a' p \<and> b p = b' p \<Longrightarrow>
   patina_euclidean_distance a b = patina_euclidean_distance a' b'"
  unfolding patina_euclidean_distance_def by (simp add: sum_sq_diff_cong [of _ a a' b b'])

lemma nearest_scan_cong:
  "\<forall>p \<in> set PATINA_PARAMETER_NAMES. state p = state' p \<Longrightarrow>
   nearest_scan patina_euclidean_distance state catalog best =
   nearest_scan patina_euclidean_distance state' catalog best"
proof (induction catalog arbitrary: best)
  case Nil
  then show ?case by simp
next
  case (Cons x rest)
  obtain sid coords where x: "x = (sid, coords)" by (cases x)
  have d: "patina_euclidean_distance state coords = patina_euclidean_distance state' coords"
    using Cons.prems by (intro distance_cong) simp
  show ?case
    using Cons.IH [OF Cons.prems] by (simp add: x d split: sum.splits)
qed

lemma interpolate_axes_cong:
  "\<forall>p \<in> set ps. a p = a' p \<and> b p = b' p \<Longrightarrow>
   interpolate_axes a b alpha ps acc = interpolate_axes a' b' alpha ps acc"
  by (induction ps arbitrary: acc) (auto split: option.splits)

lemma sum_sq_diff_missing:
  "\<exists>p \<in> set ps. a p = None \<or> b p = None \<Longrightarrow>
   \<exists>q \<in> set ps. (a q = None \<or> b q = None) \<and> sum_sq_diff a b ps acc = Inl (KeyError q)"
proof (induction ps arbitrary: acc)
  case Nil
  then show ?case by simp
next
  case (Cons p ps)
  show ?case
  proof (cases "a p = None \<or> b p = None")
    case True
    then have "sum_sq_diff a b (p # ps) acc = Inl (KeyError p)"
      by (auto split: option.splits)
    with True show ?thesis by auto
  next
    case False
    then obtain x y where xy: "a p = Some x" "b p = Some y" by auto
    from False Cons.prems have "\<exists>p \<in> set ps. a p = None \<or> b p = None" by auto
    from Cons.IH [OF this, of "acc + (x - y)\<^sup>2"] show ?thesis by (auto simp: xy)
  qed
qed

lemma distance_missing:
  assumes "p \<in> set PATINA_PARAMETER_NAMES" "a p = None \<or> b p = None"
  shows "\<exists>q \<in> set PATINA_PARAMETER_NAMES.
           (a q = None \<or> b q = None) \<and> patina_euclidean_distance a b = Inl (KeyError q)"
proof -
  from assms have "\<exists>p \<in> set PATINA_PARAMETER_NAMES. a p = None \<or> b p = None" by blast
  from sum_sq_diff_missing [OF this, of 0] show ?thesis
    by (auto simp: patina_euclidean_distance_def)
qed

lemma resolve_missing:
  fixes items :: "(string \<times> real) list"
  assumes "find (\<lambda>p. p \<notin> fst ` set items) PATINA_PARAMETER_NAMES = Some p"
  shows "generate_patina_attractor_prompt T attractor_id (Some items) mode style_modifier
           keyframe_count =
         Inr (JObj [(''error'', JStr (''Missing parameter: '' @ p)),
                    (''required'', JList (map JStr PATINA_PARAMETER_NAMES))])"
  by (simp add: generate_patina_attractor_prompt_def resolve_state_def assms)

lemma resolve_extra:
  fixes items :: "(string \<times> real) list"
  assumes "set PATINA_PARAMETER_NAMES \<subseteq> fst ` set items"
  shows "resolve_state attractor_id (Some items) = Inr (None, items)"
proof -
  have "find (\<lambda>p. p \<notin> fst ` set items) PATINA_PARAMETER_NAMES = None"
    using assms by (auto simp: find_None_iff)
  then show ?thesis by (simp add: resolve_state_def)
qed

text \<open>
  Claim C9 as written fails: a coordinate with a sixth axis is not rejected. The
  distance from such a coordinate to \<^verbatim>\<open>fresh_pristine\<close> is computed, and is 0.
\<close>

theorem extra_axis_counterexample:
  "patina_euclidean_distance ((point 0.00 0.00 0.50 0.00 0.50)(''humidity'' \<mapsto> 1))
     (point 0.00 0.00 0.50 0.00 0.50) = Inr 0"
  by (simp add: patina_euclidean_distance_def PATINA_PARAMETER_NAMES_def point_def)

text \<open>
  Claim C9, amended: the distance of two coordinates of which one lacks an axis name is
  the exception \<^verbatim>\<open>KeyError\<close> for a missing axis, not a structured error; distance, both
  classifications and interpolation read the five named axes only, so axes beyond them
  change nothing; the prompt tool answers a custom state that lacks an axis with the
  error object naming the first missing axis, and accepts a custom state that has the
  five axes whatever else it holds.
\<close>

theorem axis_validation:
  "(\<forall>a b. \<forall>p \<in> set PATINA_PARAMETER_NAMES.
      a p = None \<or> b p = None \<longrightarrow>
      (\<exists>q \<in> set PATINA_PARAMETER_NAMES.
         (a q = None \<or> b q = None) \<and> patina_euclidean_distance a b = Inl (KeyError q)))
   \<and> (\<forall>a a' b b'.
         (\<forall>p \<in> set PATINA_PARAMETER_NAMES. a p = a' p \<and> b p = b' p) \<longrightarrow>
         patina_euclidean_distance a b = patina_euclidean_distance a' b'
       \<and> patina_nearest_canonical a = patina_nearest_canonical a'
       \<and> patina_nearest_visual_type a = patina_nearest_visual_type a'
       \<and> (\<forall>t pattern. patina_interpolate_states a b t pattern
                         = patina_interpolate_states a' b' t pattern))
   \<and> (\<forall>T attractor_id (items :: (string \<times> real) list) mode style_modifier keyframe_count p.
         find (\<lambda>p. p \<notin> fst ` set items) PATINA_PARAMETER_NAMES = Some p \<longrightarrow>
         generate_patina_attractor_prompt T attractor_id (Some items) mode style_modifier
           keyframe_count =
         Inr (JObj [(''error'', JStr (''Missing parameter: '' @ p)),
                    (''required'', JList (map JStr PATINA_PARAMETER_NAMES))]))
   \<and> (\<forall>attractor_id (items :: (string \<times> real) list).
         set PATINA_PARAMETER_NAMES \<subseteq> fst ` set items \<longrightarrow>
         resolve_state attractor_id (Some items) = Inr (None, items))"
proof (intro conjI allI ballI impI)
  fix a b :: state and p
  assume "p \<in> set PATINA_PARAMETER_NAMES" "a p = None \<or> b p = None"
  then show "\<exists>q \<in> set PATINA_PARAMETER_NAMES.
         (a q = None \<or> b q = None) \<and> patina_euclidean_distance a b = Inl (KeyError q)"
    by (rule distance_missing)
next
  fix a a' b b' :: state
  assume eq: "\<forall>p \<in> set PATINA_PARAMETER_NAMES. a p = a' p \<and> b p = b' p"
  then show "patina_euclidean_distance a b = patina_euclidean_distance a' b'"
    by (rule distance_cong)
  from eq show "patina_nearest_canonical a = patina_nearest_canonical a'"
    unfolding patina_nearest_canonical_def by (intro nearest_scan_cong) simp
  from eq show "patina_nearest_visual_type a = patina_nearest_visual_type a'"
    unfolding patina_nearest_visual_type_def by (intro nearest_scan_cong) simp
  fix t pattern
  from eq show "patina_interpolate_states a b t pattern = patina_interpolate_states a' b' t pattern"
    unfolding patina_interpolate_states_def by (rule interpolate_axes_cong)
next
  fix T attractor_id mode style_modifier keyframe_count p
    and items :: "(string \<times> real) list"
  assume "find (\<lambda>p. p \<notin> fst ` set items) PATINA_PARAMETER_NAMES = Some p"
  then show "generate_patina_attractor_prompt T attractor_id (Some items) mode style_modifier
           keyframe_count =
         Inr (JObj [(''error'', JStr (''Missing parameter: '' @ p)),
                    (''required'', JList (map JStr PATINA_PARAMETER_NAMES))])"
    by (rule resolve_missing)
next
  fix attractor_id :: string and items :: "(string \<times> real) list"
  assume "set PATINA_PARAMETER_NAMES \<subseteq> fst ` set items"
  then show "resolve_state attractor_id (Some items) = Inr (None, items)"
    by (rule resolve_extra)
qed

text \<open>The amended C9 at a coordinate without \<^verbatim>\<open>agent_intensity\<close> and one with a sixth axis.\<close>

theorem axis_validation_witness:
  "patina_euclidean_distance (point 0.00 0.00 0.50 0.00 0.50)
     ((point 0.30 0.20 0.60 0.05 0.85)(''agent_intensity'' := None)) = Inl (KeyError ''agent_intensity'')
   \<and> generate_patina_attractor_prompt sample_tables '''' (Some [(''exposure_duration'', 0.5)]) ''composite'' '''' 4 =
       Inr (JObj [(''error'', JStr ''Missing parameter: agent_intensity''),
                  (''required'', JList (map JStr PATINA_PARAMETER_NAMES))])
   \<and> resolve_state '''' (Some ((''humidity'', 1) # axis_items 0.30 0.20 0.60 0.05 0.85)) =
       Inr (None, (''humidity'', 1) # axis_items 0.30 0.20 0.60 0.05 0.85)"
proof -
  let ?a = "point 0.00 0.00 0.50 0.00 0.50"
  let ?b = "(point 0.30 0.20 0.60 0.05 0.85)(''agent_intensity'' := None)"
  let ?items = "[(''exposure_duration'', 0.5 :: real)]"
  let ?extra = "(''humidity'', 1 :: real) # axis_items 0.30 0.20 0.60 0.05 0.85"
  note av = axis_validation
  have m: "''agent_intensity'' \<in> set PATINA_PARAMETER_NAMES" "?a ''agent_intensity'' = None \<or> ?b ''agent_intensity'' = None"
    by (simp_all add: PATINA_PARAMETER_NAMES_def)
  from av [THEN conjunct1, rule_format, where a = ?a and b = ?b and p = "''agent_intensity''", OF m]
  obtain q where q: "q \<in> set PATINA_PARAMETER_NAMES" "?a q = None \<or> ?b q = None"
    "patina_euclidean_distance ?a ?b = Inl (KeyError q)" by blast
  from q(1,2) have "q = ''agent_intensity''"
    by (auto simp: PATINA_PARAMETER_NAMES_def point_def split: if_splits)
  with q(3) have c1: "patina_euclidean_distance ?a ?b = Inl (KeyError ''agent_intensity'')" by simp
  have f: "find (\<lambda>p. p \<notin> fst ` set ?items) PATINA_PARAMETER_NAMES = Some ''agent_intensity''"
    by (simp add: PATINA_PARAMETER_NAMES_def)
  from av [THEN conjunct2, THEN conjunct2, THEN conjunct1, rule_format, OF f,
      where T = sample_tables and attractor_id = "''''" and mode = "''composite''" and style_modifier = "''''"
        and keyframe_count = 4]
  have c2: "generate_patina_attractor_prompt sample_tables '''' (Some ?items) ''composite'' '''' 4 =
       Inr (JObj [(''error'', JStr ''Missing parameter: agent_intensity''),
                  (''required'', JList (map JStr PATINA_PARAMETER_NAMES))])"
    by simp
  have s: "set PATINA_PARAMETER_NAMES \<subseteq> fst ` set ?extra"
    by (simp add: PATINA_PARAMETER_NAMES_def axis_items_def)
  from av [THEN conjunct2, THEN conjunct2, THEN conjunct2, rule_format, OF s,
      where attractor_id = "''''"]
  have c3: "resolve_state '''' (Some ?extra) = Inr (None, ?extra)" .
  from c1 c2 c3 show ?thesis by blast
qed

section \<open>Verification: sample records\<close>







end
